theory Spec2Isabelle
  imports Main "HOL-Library.Sublist"
begin

section \<open>Data model\<close>

text \<open>
  The embedding follows \<^verbatim>\<open>src/telegram/bot-message-dispatch.ts\<close>. JavaScript strings are
  modelled as \<open>string\<close>; only concatenation, \<^verbatim>\<open>startsWith\<close>, \<^verbatim>\<open>slice\<close> from an
  offset, equality and emptiness are used, and these are the list operations \<open>@\<close>,
  \<open>prefix\<close>, \<open>drop\<close>, \<open>=\<close> and \<open>= []\<close>.
\<close>

text \<open>A reply payload: \<^verbatim>\<open>payload.text\<close> is optional.\<close>

record reply_payload =
  payload_text :: "string option"
  payload_mediaUrl :: "string option"

text \<open>JavaScript truthiness of an optional string: \<^verbatim>\<open>undefined\<close> and \<^verbatim>\<open>""\<close> are falsy.\<close>

fun truthy :: "string option \<Rightarrow> bool" where
  "truthy None = False"
| "truthy (Some s) = (s \<noteq> [])"

text \<open>
  Modelled from the spec: the collaborators the turn calls (\<^verbatim>\<open>logVerbose\<close>,
  \<^verbatim>\<open>deliverReplies\<close>, \<^verbatim>\<open>removeAckReactionAfterReply\<close>, the transport behind the draft
  stream, and the \<^verbatim>\<open>sendTyping\<close> and \<^verbatim>\<open>runtime.error\<close> the caller passes in) are not
  among the sources. Following section 6 of the spec, a call to one of them is an effect
  that may fail, and a turn is read off the sequence of its effects, in the order they
  happen: the calls to the draft controller, the transport call of the draft controller,
  the log sink (\<^verbatim>\<open>logVerbose\<close>, which is also the draft stream's \<^verbatim>\<open>log\<close> and
  \<^verbatim>\<open>warn\<close>), the typing cue, \<^verbatim>\<open>deliverReplies\<close>, the call of the dispatcher's
  \<^verbatim>\<open>onError\<close> option, \<^verbatim>\<open>runtime.error\<close>, \<^verbatim>\<open>removeAckReactionAfterReply\<close> and
  \<^verbatim>\<open>clearHistoryEntriesIfEnabled\<close>.
\<close>

datatype effect =
    DraftUpdate string
  | DraftFlush
  | DraftStop
  | EditLiveMessage string
  | LogVerbose string
  | SendTyping
  | DeliverReplies reply_payload
  | OnError string string
  | RuntimeError string
  | RemoveAckReactionAfterReply
  | ClearHistoryEntries string

section \<open>Chunk Splitter\<close>

text \<open>
  Modelled from the spec: \<^verbatim>\<open>EmbeddedBlockChunker\<close>
  (\<^verbatim>\<open>src/agents/pi-embedded-block-chunker.ts\<close>) and the chunking configuration that
  \<^verbatim>\<open>resolveTelegramDraftStreamingChunking\<close> returns are not among the sources; every
  definition of this section is part of that model. The spec
  (section 4.1) gives the contract: \<^verbatim>\<open>append\<close> buffers a delta; a non-forced drain emits
  only chunks that end at a boundary the configurable policy calls safe, and an
  over-large buffer (longer than the configured maximum) still emits; a forced drain
  emits all remaining buffered text as a final chunk and clears the buffer;
  \<^verbatim>\<open>reset\<close> discards the buffer; \<^verbatim>\<open>hasBuffered\<close> says whether text remains.

  The boundary policy is a parameter: \<open>boundary pol buf\<close> is the length of the safe chunk
  at the front of \<open>buf\<close> (0: no safe boundary), a function of the buffered text only.
\<close>

record block_chunking =
  boundary :: "string \<Rightarrow> nat"
  maxBuffer :: nat

record chunker =
  chunking :: block_chunking
  buffer :: string

definition EmbeddedBlockChunker :: "block_chunking \<Rightarrow> chunker" where
  "EmbeddedBlockChunker pol = \<lparr>chunking = pol, buffer = []\<rparr>"

definition chunker_append :: "chunker \<Rightarrow> string \<Rightarrow> chunker" where
  "chunker_append c delta = c\<lparr>buffer := buffer c @ delta\<rparr>"

definition chunker_reset :: "chunker \<Rightarrow> chunker" where
  "chunker_reset c = c\<lparr>buffer := []\<rparr>"

definition chunker_hasBuffered :: "chunker \<Rightarrow> bool" where
  "chunker_hasBuffered c = (buffer c \<noteq> [])"

text \<open>Where the next chunk ends: at the safe boundary, else at the configured maximum
  when the buffer exceeds it, else nowhere (0).\<close>

definition cutIndex :: "block_chunking \<Rightarrow> string \<Rightarrow> nat" where
  "cutIndex pol buf =
     (if 0 < boundary pol buf \<and> boundary pol buf \<le> length buf then boundary pol buf
      else if 0 < maxBuffer pol \<and> maxBuffer pol < length buf then maxBuffer pol
      else 0)"

function drainSafe :: "block_chunking \<Rightarrow> string \<Rightarrow> string list \<times> string" where
  "drainSafe pol buf =
     (if cutIndex pol buf = 0 then ([], buf)
      else (case drainSafe pol (drop (cutIndex pol buf) buf) of
              (chunks, rest) \<Rightarrow> (take (cutIndex pol buf) buf # chunks, rest)))"
  by pat_completeness auto
termination
  by (relation "measure (\<lambda>(pol, buf). length buf)")
     (auto simp: cutIndex_def split: if_splits)

declare drainSafe.simps [simp del]

text \<open>\<^verbatim>\<open>drain({ force, emit })\<close>: the chunks handed to \<^verbatim>\<open>emit\<close>, in order, and the chunker
  afterwards.\<close>

definition chunker_drain :: "bool \<Rightarrow> chunker \<Rightarrow> string list \<times> chunker" where
  "chunker_drain force c =
     (case drainSafe (chunking c) (buffer c) of
        (chunks, rest) \<Rightarrow>
          if force then (chunks @ (if rest = [] then [] else [rest]), c\<lparr>buffer := []\<rparr>)
          else (chunks, c\<lparr>buffer := rest\<rparr>))"

text \<open>The use the dispatcher makes of the chunker over one turn: each delta is appended
  and followed by a non-forced drain (lines 93--100 of the source).\<close>

fun appendAndDrain :: "chunker \<Rightarrow> string list \<Rightarrow> string list \<times> chunker" where
  "appendAndDrain c [] = ([], c)"
| "appendAndDrain c (delta # deltas) =
     (case chunker_drain False (chunker_append c delta) of
        (chunks, c') \<Rightarrow>
          (case appendAndDrain c' deltas of
             (chunks', c'') \<Rightarrow> (chunks @ chunks', c'')))"

section \<open>The inputs of a turn\<close>

text \<open>
  What the turn is given from outside. The first block is the destructured
  \<^verbatim>\<open>context\<close> and the arguments of \<^verbatim>\<open>dispatchTelegramMessage\<close> that its control flow
  reads. \<open>botTopicsEnabled\<close> is the value \<^verbatim>\<open>await resolveBotTopicsEnabled(primaryCtx)\<close>
  resolves to; \<open>draftChunking\<close> is what
  \<^verbatim>\<open>resolveTelegramDraftStreamingChunking(cfg, route.accountId)\<close> returns;
  \<open>runtimeHasError\<close> says whether \<^verbatim>\<open>runtime.error\<close> is defined
  (the source calls \<^verbatim>\<open>runtime.error?.(...)\<close>).

  The second block is the behaviour of the external collaborators, which may all fail:
  \<open>typingFails\<close> is the error \<^verbatim>\<open>sendTyping\<close> throws, if any; \<open>deliverFails p\<close> is the
  error \<^verbatim>\<open>deliverReplies\<close> throws for payload \<open>p\<close>, if any; \<open>editFails n\<close> is the error
  of the draft transport's \<open>n\<close>-th edit call, if any; \<open>throttleOpen n\<close> says whether the
  draft controller's throttle lets the \<open>n\<close>-th \<^verbatim>\<open>update\<close> call through at once or
  only queues its text.
\<close>

record dispatch_params =
  streamMode :: string
  textLimit :: int
  chatType :: string
  chatId :: string
  resolvedThreadId :: "int option"
  botTopicsEnabled :: bool
  draftChunking :: "block_chunking option"
  isGroup :: bool
  historyKey :: "string option"
  historyLimit :: int
  groupHistories :: "string \<Rightarrow> string list option"
  runtimeHasError :: bool
  typingFails :: "string option"
  deliverFails :: "reply_payload \<Rightarrow> string option"
  editFails :: "nat \<Rightarrow> string option"
  throttleOpen :: "nat \<Rightarrow> bool"

section \<open>Draft Controller\<close>

text \<open>
  Modelled from the spec: \<^verbatim>\<open>createTelegramDraftStream\<close> (\<^verbatim>\<open>src/telegram/draft-stream.ts\<close>)
  is not among the sources; every definition of this section is part of that model. The
  spec (section 4.2) gives the contract: \<^verbatim>\<open>update(text)\<close> schedules or immediately
  performs a live edit, later calls superseding earlier queued ones; \<^verbatim>\<open>flush()\<close> completes any pending edit, so that the transport reflects the most
  recent \<^verbatim>\<open>update\<close>; \<^verbatim>\<open>stop()\<close> terminates future edits; a failed edit is reported
  through the injected sink and does not raise. The controller tracks the last rendered
  text. Real time is not modelled: whether an \<^verbatim>\<open>update\<close> is sent at once or queued is
  the oracle \<open>throttleOpen\<close>.
\<close>

record draft_stream =
  ds_maxChars :: int
  ds_messageThreadId :: "int option"
  ds_pending :: "string option"
  ds_lastSent :: "string option"
  ds_stopped :: bool
  ds_updates :: nat
  ds_edits :: nat

definition createTelegramDraftStream :: "int \<Rightarrow> int option \<Rightarrow> draft_stream" where
  "createTelegramDraftStream maxChars messageThreadId =
     \<lparr>ds_maxChars = maxChars, ds_messageThreadId = messageThreadId, ds_pending = None,
      ds_lastSent = None, ds_stopped = False, ds_updates = 0, ds_edits = 0\<rparr>"

text \<open>The one place the transport is called: the pending text, if any, is sent as a live
  edit; a failure goes to the \<^verbatim>\<open>warn\<close> sink (\<^verbatim>\<open>logVerbose\<close>) and nowhere else.\<close>

definition ds_sendPending :: "dispatch_params \<Rightarrow> draft_stream \<Rightarrow> draft_stream \<times> effect list" where
  "ds_sendPending P d =
     (case ds_pending d of
        None \<Rightarrow> (d, [])
      | Some t \<Rightarrow>
          (case editFails P (ds_edits d) of
             None \<Rightarrow>
               (d\<lparr>ds_pending := None, ds_lastSent := Some t, ds_edits := Suc (ds_edits d)\<rparr>,
                [EditLiveMessage t])
           | Some err \<Rightarrow>
               (d\<lparr>ds_pending := None, ds_edits := Suc (ds_edits d)\<rparr>,
                [EditLiveMessage t, LogVerbose (''telegram draft stream failed: '' @ err)])))"

definition ds_update :: "dispatch_params \<Rightarrow> string \<Rightarrow> draft_stream \<Rightarrow> draft_stream \<times> effect list" where
  "ds_update P t d =
     (if ds_stopped d then (d, [])
      else if throttleOpen P (ds_updates d)
        then ds_sendPending P (d\<lparr>ds_pending := Some t, ds_updates := Suc (ds_updates d)\<rparr>)
        else (d\<lparr>ds_pending := Some t, ds_updates := Suc (ds_updates d)\<rparr>, []))"

definition ds_flush :: "dispatch_params \<Rightarrow> draft_stream \<Rightarrow> draft_stream \<times> effect list" where
  "ds_flush P d = ds_sendPending P d"

definition ds_stop :: "draft_stream \<Rightarrow> draft_stream \<times> effect list" where
  "ds_stop d = (d\<lparr>ds_stopped := True, ds_pending := None\<rparr>, [])"

section \<open>The state of one turn\<close>

text \<open>The closure variables of \<^verbatim>\<open>dispatchTelegramMessage\<close> that change during the turn
  (\<^verbatim>\<open>lastPartialText\<close>, \<^verbatim>\<open>draftText\<close>), the two objects it owns, and the effects so far.\<close>

record turn_state =
  lastPartialText :: string
  draftText :: string
  draftChunker :: "chunker option"
  draftStream :: "draft_stream option"
  trace :: "effect list"

text \<open>\<^verbatim>\<open>draftStream.update(t)\<close>, \<^verbatim>\<open>draftStream.flush()\<close> and \<^verbatim>\<open>draftStream?.stop()\<close> as the
  source calls them: the call is recorded, then the controller's own effects.\<close>

definition draft_update :: "dispatch_params \<Rightarrow> string \<Rightarrow> turn_state \<Rightarrow> turn_state" where
  "draft_update P t st =
     (case draftStream st of
        None \<Rightarrow> st
      | Some d \<Rightarrow>
          st\<lparr>draftStream := Some (fst (ds_update P t d)),
             trace := trace st @ DraftUpdate t # snd (ds_update P t d)\<rparr>)"

definition draft_flush :: "dispatch_params \<Rightarrow> turn_state \<Rightarrow> turn_state" where
  "draft_flush P st =
     (case draftStream st of
        None \<Rightarrow> st
      | Some d \<Rightarrow>
          st\<lparr>draftStream := Some (fst (ds_flush P d)),
             trace := trace st @ DraftFlush # snd (ds_flush P d)\<rparr>)"

definition draft_stop :: "turn_state \<Rightarrow> turn_state" where
  "draft_stop st =
     (case draftStream st of
        None \<Rightarrow> st
      | Some d \<Rightarrow>
          st\<lparr>draftStream := Some (fst (ds_stop d)),
             trace := trace st @ DraftStop # snd (ds_stop d)\<rparr>)"

definition logVerbose :: "string \<Rightarrow> turn_state \<Rightarrow> turn_state" where
  "logVerbose msg st = st\<lparr>trace := trace st @ [LogVerbose msg]\<rparr>"

section \<open>The partial-reply handler and the draft flush\<close>

text \<open>The \<^verbatim>\<open>emit\<close> callback of the non-forced drain (lines 96--99), once per chunk.\<close>

fun emitChunks :: "dispatch_params \<Rightarrow> string list \<Rightarrow> turn_state \<Rightarrow> turn_state" where
  "emitChunks P [] st = st"
| "emitChunks P (chunk # chunks) st =
     emitChunks P chunks
       (draft_update P (draftText st @ chunk) (st\<lparr>draftText := draftText st @ chunk\<rparr>))"

text \<open>\<^verbatim>\<open>updateDraftFromPartial\<close> (lines 70--101).\<close>

definition updateDraftFromPartial :: "dispatch_params \<Rightarrow> string option \<Rightarrow> turn_state \<Rightarrow> turn_state" where
  "updateDraftFromPartial P txt st =
     (if draftStream st = None \<or> \<not> truthy txt then st
      else let t = the txt in
        if t = lastPartialText st then st
        else if streamMode P = ''partial''
          then draft_update P t (st\<lparr>lastPartialText := t\<rparr>)
        else
          let extends = prefix (lastPartialText st) t;
              delta = (if extends then drop (length (lastPartialText st)) t else t);
              st1 = (if extends then st
                     else st\<lparr>draftChunker := map_option chunker_reset (draftChunker st),
                             draftText := []\<rparr>);
              st2 = st1\<lparr>lastPartialText := t\<rparr>
          in if delta = [] then st2
             else (case draftChunker st2 of
                     None \<Rightarrow> draft_update P t (st2\<lparr>draftText := t\<rparr>)
                   | Some c \<Rightarrow>
                       (case chunker_drain False (chunker_append c delta) of
                          (chunks, c') \<Rightarrow>
                            emitChunks P chunks (st2\<lparr>draftChunker := Some c'\<rparr>))))"

text \<open>\<^verbatim>\<open>flushDraft\<close> (lines 102--115). The forced drain's \<^verbatim>\<open>emit\<close> only appends to
  \<^verbatim>\<open>draftText\<close>.\<close>

definition flushDraft :: "dispatch_params \<Rightarrow> turn_state \<Rightarrow> turn_state" where
  "flushDraft P st =
     (if draftStream st = None then st
      else draft_flush P
        (case draftChunker st of
           None \<Rightarrow> st
         | Some c \<Rightarrow>
             if chunker_hasBuffered c then
               (case chunker_drain True c of
                  (chunks, c') \<Rightarrow>
                    let st1 = st\<lparr>draftText := foldl (@) (draftText st) chunks,
                                 draftChunker := Some (chunker_reset c')\<rparr>
                    in if draftText st1 \<noteq> [] then draft_update P (draftText st1) st1
                       else st1)
             else st))"

section \<open>The dispatcher options\<close>

text \<open>\<^verbatim>\<open>deliverReplies({ replies: [payload], ... })\<close>: an external call that may throw.\<close>

definition deliverReplies :: "dispatch_params \<Rightarrow> reply_payload \<Rightarrow> turn_state \<Rightarrow> turn_state \<times> string option" where
  "deliverReplies P payload st =
     (st\<lparr>trace := trace st @ [DeliverReplies payload]\<rparr>, deliverFails P payload)"

text \<open>\<^verbatim>\<open>deliver\<close> (lines 134--151); the second component is the error it throws, if any.\<close>

definition deliver :: "dispatch_params \<Rightarrow> reply_payload \<Rightarrow> string \<Rightarrow> turn_state \<Rightarrow> turn_state \<times> string option" where
  "deliver P payload kind st =
     deliverReplies P payload
       (if kind = ''final'' then draft_stop (flushDraft P st) else st)"

text \<open>\<^verbatim>\<open>onError\<close> (lines 152--154). The call itself is recorded; \<^verbatim>\<open>danger\<close> only colours
  the message.\<close>

definition onError :: "dispatch_params \<Rightarrow> string \<Rightarrow> string \<Rightarrow> turn_state \<Rightarrow> turn_state" where
  "onError P err kind st =
     st\<lparr>trace := trace st @ OnError err kind #
          (if runtimeHasError P
           then [RuntimeError (''telegram '' @ kind @ '' reply failed: '' @ err)]
           else [])\<rparr>"

definition sendTyping :: "dispatch_params \<Rightarrow> turn_state \<Rightarrow> turn_state \<times> string option" where
  "sendTyping P st = (st\<lparr>trace := trace st @ [SendTyping]\<rparr>, typingFails P)"

definition onStartError :: "dispatch_params \<Rightarrow> string \<Rightarrow> turn_state \<Rightarrow> turn_state" where
  "onStartError P err st =
     logVerbose (''telegram typing cue failed for chat '' @ chatId P @ '': '' @ err) st"

text \<open>
  Modelled from the spec: \<^verbatim>\<open>createTypingCallbacks\<close> (\<^verbatim>\<open>src/channels/typing.ts\<close>) is not
  among the sources. The spec (section 4.4): the indicator is started best-effort;
  a failure is logged, never fatal. So \<^verbatim>\<open>onReplyStart\<close> runs \<^verbatim>\<open>start\<close> and hands a
  failure to \<^verbatim>\<open>onStartError\<close>.
\<close>

definition createTypingCallbacks ::
  "(turn_state \<Rightarrow> turn_state \<times> string option) \<Rightarrow> (string \<Rightarrow> turn_state \<Rightarrow> turn_state)
     \<Rightarrow> turn_state \<Rightarrow> turn_state" where
  "createTypingCallbacks start startError st =
     (case start st of
        (st', None) \<Rightarrow> st'
      | (st', Some err) \<Rightarrow> startError err st')"

definition onReplyStart :: "dispatch_params \<Rightarrow> turn_state \<Rightarrow> turn_state" where
  "onReplyStart P = createTypingCallbacks (sendTyping P) (onStartError P)"

text \<open>The reasoning-stream handler (lines 166--168).\<close>

definition onReasoningStream :: "dispatch_params \<Rightarrow> reply_payload \<Rightarrow> turn_state \<Rightarrow> turn_state" where
  "onReasoningStream P payload st =
     (if truthy (payload_text payload) then draft_update P (the (payload_text payload)) st
      else st)"

definition onPartialReply :: "dispatch_params \<Rightarrow> reply_payload \<Rightarrow> turn_state \<Rightarrow> turn_state" where
  "onPartialReply P payload st = updateDraftFromPartial P (payload_text payload) st"

record dispatcher_options =
  deliver_cb :: "reply_payload \<Rightarrow> string \<Rightarrow> turn_state \<Rightarrow> turn_state \<times> string option"
  onError_cb :: "string \<Rightarrow> string \<Rightarrow> turn_state \<Rightarrow> turn_state"
  onReplyStart_cb :: "turn_state \<Rightarrow> turn_state"

record reply_options =
  onPartialReply_cb :: "(reply_payload \<Rightarrow> turn_state \<Rightarrow> turn_state) option"
  onReasoningStream_cb :: "(reply_payload \<Rightarrow> turn_state \<Rightarrow> turn_state) option"

definition dispatcherOptions :: "dispatch_params \<Rightarrow> dispatcher_options" where
  "dispatcherOptions P =
     \<lparr>deliver_cb = deliver P, onError_cb = onError P, onReplyStart_cb = onReplyStart P\<rparr>"

text \<open>\<^verbatim>\<open>replyOptions\<close> (lines 162--174): both handlers are installed only when a draft
  stream exists.\<close>

definition replyOptions :: "dispatch_params \<Rightarrow> draft_stream option \<Rightarrow> reply_options" where
  "replyOptions P ds =
     \<lparr>onPartialReply_cb = (if ds \<noteq> None then Some (onPartialReply P) else None),
      onReasoningStream_cb = (if ds \<noteq> None then Some (onReasoningStream P) else None)\<rparr>"

section \<open>Reply Dispatcher\<close>

text \<open>The reply-generation stream of one turn (spec, section 6): partial-text and
  reasoning events in order, then exactly one terminal event.\<close>

datatype stream_event = Partial reply_payload | Reasoning reply_payload

datatype terminal_event = Final "reply_payload list" | NoReply

text \<open>
  Modelled from the spec: \<^verbatim>\<open>dispatchReplyWithBufferedBlockDispatcher\<close>
  (\<^verbatim>\<open>src/auto-reply/reply/provider-dispatcher.ts\<close>) is not among the sources. The spec
  (sections 4.3, 4.4 and 6): the typing indicator is started when dispatch begins; each
  partial-text and reasoning event goes to its handler, if one is installed; on the
  terminal final event the delivery callback is invoked once per payload with
  \<^verbatim>\<open>{ kind: "final" }\<close>, sequentially and in order, a delivery error going to the error
  sink without aborting the sibling payloads; on the terminal "none" event delivery
  is skipped; the outcome \<^verbatim>\<open>queuedFinal\<close> is reported to the caller.
\<close>

fun handleEvent :: "reply_options \<Rightarrow> turn_state \<Rightarrow> stream_event \<Rightarrow> turn_state" where
  "handleEvent ro st (Partial payload) =
     (case onPartialReply_cb ro of None \<Rightarrow> st | Some h \<Rightarrow> h payload st)"
| "handleEvent ro st (Reasoning payload) =
     (case onReasoningStream_cb ro of None \<Rightarrow> st | Some h \<Rightarrow> h payload st)"

fun deliverFinals :: "dispatcher_options \<Rightarrow> reply_payload list \<Rightarrow> turn_state \<Rightarrow> turn_state" where
  "deliverFinals opts [] st = st"
| "deliverFinals opts (payload # payloads) st =
     (case deliver_cb opts payload ''final'' st of
        (st', None) \<Rightarrow> deliverFinals opts payloads st'
      | (st', Some err) \<Rightarrow> deliverFinals opts payloads (onError_cb opts err ''final'' st'))"

definition dispatchReplyWithBufferedBlockDispatcher ::
  "dispatcher_options \<Rightarrow> reply_options \<Rightarrow> stream_event list \<Rightarrow> terminal_event
     \<Rightarrow> turn_state \<Rightarrow> turn_state \<times> bool" where
  "dispatchReplyWithBufferedBlockDispatcher opts ro events terminal st =
     (let st1 = foldl (handleEvent ro) (onReplyStart_cb opts st) events
      in case terminal of
           NoReply \<Rightarrow> (st1, False)
         | Final payloads \<Rightarrow> (deliverFinals opts payloads st1, True))"

section \<open>Turn Coordinator\<close>

text \<open>
  Modelled from the spec: \<^verbatim>\<open>clearHistoryEntriesIfEnabled\<close>
  (\<^verbatim>\<open>src/auto-reply/reply/history.ts\<close>) is not among the sources. The spec (section 4.4):
  the buffered history entries of the key are cleared when the configured history limit
  is exceeded.
\<close>

definition clearHistoryEntriesIfEnabled ::
  "(string \<Rightarrow> string list option) \<Rightarrow> string \<Rightarrow> int \<Rightarrow> (string \<Rightarrow> string list option)" where
  "clearHistoryEntriesIfEnabled historyMap key limit =
     (case historyMap key of
        None \<Rightarrow> historyMap
      | Some entries \<Rightarrow>
          if limit < int (length entries) then historyMap(key \<mapsto> []) else historyMap)"

text \<open>The first lines of \<^verbatim>\<open>dispatchTelegramMessage\<close> (45--67).\<close>

definition isPrivateChat :: "dispatch_params \<Rightarrow> bool" where
  "isPrivateChat P = (chatType P = ''private'')"

definition draftMaxChars :: "dispatch_params \<Rightarrow> int" where
  "draftMaxChars P = min (textLimit P) 4096"

definition canStreamDraft :: "dispatch_params \<Rightarrow> bool" where
  "canStreamDraft P =
     (streamMode P \<noteq> ''off'' \<and> isPrivateChat P \<and> resolvedThreadId P \<noteq> None \<and>
      botTopicsEnabled P)"

definition initialDraftStream :: "dispatch_params \<Rightarrow> draft_stream option" where
  "initialDraftStream P =
     (if canStreamDraft P
      then Some (createTelegramDraftStream (draftMaxChars P) (resolvedThreadId P))
      else None)"

definition initialDraftChunker :: "dispatch_params \<Rightarrow> chunker option" where
  "initialDraftChunker P =
     map_option EmbeddedBlockChunker
       (if initialDraftStream P \<noteq> None \<and> streamMode P = ''block'' then draftChunking P
        else None)"

definition initialState :: "dispatch_params \<Rightarrow> turn_state" where
  "initialState P =
     \<lparr>lastPartialText = [], draftText = [], draftChunker = initialDraftChunker P,
      draftStream = initialDraftStream P, trace = []\<rparr>"

text \<open>What the caller can observe of a turn: the final state (with the trace of all
  effects), \<^verbatim>\<open>queuedFinal\<close>, and the group histories afterwards.\<close>

record turn_result =
  finalState :: turn_state
  queuedFinal :: bool
  histories :: "string \<Rightarrow> string list option"

text \<open>The history clean-up both exits of the function perform (lines 178--180 and
  195--197).\<close>

definition clearGroupHistory :: "dispatch_params \<Rightarrow> turn_state \<Rightarrow> turn_result \<Rightarrow> turn_result" where
  "clearGroupHistory P st r =
     (if isGroup P \<and> truthy (historyKey P)
      then r\<lparr>finalState := st\<lparr>trace := trace st @ [ClearHistoryEntries (the (historyKey P))]\<rparr>,
             histories := clearHistoryEntriesIfEnabled (groupHistories P) (the (historyKey P))
                            (historyLimit P)\<rparr>
      else r\<lparr>finalState := st\<rparr>)"

text \<open>\<^verbatim>\<open>dispatchTelegramMessage\<close> (lines 14--198), on the stream of one turn. Left out, as
  no effect of the turn depends on them here: the draft id, the reply prefix context, the
  table mode, the skill filter, \<^verbatim>\<open>disableBlockStreaming\<close> and \<^verbatim>\<open>onModelSelected\<close>, and
  the arguments of \<^verbatim>\<open>removeAckReactionAfterReply\<close>.\<close>

definition dispatchTelegramMessage ::
  "dispatch_params \<Rightarrow> stream_event list \<Rightarrow> terminal_event \<Rightarrow> turn_result" where
  "dispatchTelegramMessage P events terminal =
     (case dispatchReplyWithBufferedBlockDispatcher (dispatcherOptions P)
             (replyOptions P (initialDraftStream P)) events terminal (initialState P) of
        (st, qf) \<Rightarrow>
          let st1 = draft_stop st;
              r = \<lparr>finalState = st1, queuedFinal = qf, histories = groupHistories P\<rparr>
          in if \<not> qf then clearGroupHistory P st1 r
             else clearGroupHistory P
                    (st1\<lparr>trace := trace st1 @ [RemoveAckReactionAfterReply]\<rparr>) r)"

section \<open>Reading the trace\<close>

text \<open>The cosmetic effects are the calls to the draft controller, its transport edits, the
  log sink and the typing cue; everything else is the durable part of the turn.\<close>

fun cosmetic :: "effect \<Rightarrow> bool" where
  "cosmetic (DraftUpdate t) = True"
| "cosmetic DraftFlush = True"
| "cosmetic DraftStop = True"
| "cosmetic (EditLiveMessage t) = True"
| "cosmetic (LogVerbose msg) = True"
| "cosmetic SendTyping = True"
| "cosmetic e = False"

definition durable :: "effect list \<Rightarrow> effect list" where
  "durable tr = filter (\<lambda>e. \<not> cosmetic e) tr"

text \<open>The payloads \<^verbatim>\<open>deliverReplies\<close> was called with, in order.\<close>

fun deliveries :: "effect list \<Rightarrow> reply_payload list" where
  "deliveries [] = []"
| "deliveries (DeliverReplies p # es) = p # deliveries es"
| "deliveries (e # es) = deliveries es"

text \<open>The effects that touch the draft: the three controller calls and the transport
  edit.\<close>

fun isDraftEffect :: "effect \<Rightarrow> bool" where
  "isDraftEffect (DraftUpdate t) = True"
| "isDraftEffect DraftFlush = True"
| "isDraftEffect DraftStop = True"
| "isDraftEffect (EditLiveMessage t) = True"
| "isDraftEffect e = False"

text \<open>The transport edits alone.\<close>

fun isTransportCall :: "effect \<Rightarrow> bool" where
  "isTransportCall (EditLiveMessage t) = True"
| "isTransportCall e = False"

text \<open>The controller calls and the deliveries: what the dispatcher itself does, in
  order, leaving out what the controller does in response.\<close>

fun isCallOrDelivery :: "effect \<Rightarrow> bool" where
  "isCallOrDelivery (DraftUpdate t) = True"
| "isCallOrDelivery DraftFlush = True"
| "isCallOrDelivery DraftStop = True"
| "isCallOrDelivery (DeliverReplies p) = True"
| "isCallOrDelivery e = False"

text \<open>What the spec promises of one final payload (section 4.3, step 4, and section 7):
  its delivery, and, when the delivery fails, the report to the error sink with the
  payload's kind and the error.\<close>

definition expectedFinalEffects :: "dispatch_params \<Rightarrow> reply_payload \<Rightarrow> effect list" where
  "expectedFinalEffects P p =
     DeliverReplies p #
       (case deliverFails P p of
          None \<Rightarrow> []
        | Some err \<Rightarrow>
            OnError err ''final'' #
              (if runtimeHasError P
               then [RuntimeError (''telegram final reply failed: '' @ err)] else []))"

text \<open>The text buffered in the chunker, if there is one.\<close>

definition bufferedText :: "turn_state \<Rightarrow> string" where
  "bufferedText st = (case draftChunker st of None \<Rightarrow> [] | Some c \<Rightarrow> buffer c)"

section \<open>Concrete turns\<close>

text \<open>Inputs on which the theorems below are evaluated.\<close>

definition helloPayload :: reply_payload where
  "helloPayload = \<lparr>payload_text = Some ''Hello world'', payload_mediaUrl = None\<rparr>"

definition neverSafe :: block_chunking where
  "neverSafe = \<lparr>boundary = (\<lambda>buf. 0), maxBuffer = 0\<rparr>"

text \<open>A private chat with a thread, block streaming and bot topics enabled; the transport
  never fails.\<close>

definition privateBlockParams :: dispatch_params where
  "privateBlockParams =
     \<lparr>streamMode = ''block'', textLimit = 4000, chatType = ''private'', chatId = ''1001'',
      resolvedThreadId = Some 7, botTopicsEnabled = True, draftChunking = Some neverSafe,
      isGroup = False, historyKey = None, historyLimit = 0, groupHistories = Map.empty,
      runtimeHasError = True, typingFails = None, deliverFails = (\<lambda>p. None),
      editFails = (\<lambda>n. None), throttleOpen = (\<lambda>n. True)\<rparr>"


text \<open>A group chat with two buffered history entries and a history limit of one.\<close>

definition groupParams :: dispatch_params where
  "groupParams =
     \<lparr>streamMode = ''off'', textLimit = 4000, chatType = ''group'', chatId = ''-2002'',
      resolvedThreadId = None, botTopicsEnabled = False, draftChunking = None,
      isGroup = True, historyKey = Some ''-2002'', historyLimit = 1,
      groupHistories = [''-2002'' \<mapsto> [''first'', ''second'']],
      runtimeHasError = True, typingFails = None, deliverFails = (\<lambda>p. None),
      editFails = (\<lambda>n. None), throttleOpen = (\<lambda>n. True)\<rparr>"

text \<open>A chat with streaming switched off.\<close>

definition offParams :: dispatch_params where
  "offParams = privateBlockParams\<lparr>streamMode := ''off''\<rparr>"


text \<open>The state the turn of \<open>privateBlockParams\<close> is in after the partial text
  \<^verbatim>\<open>"Hello wor"\<close>: nothing rendered yet, the whole text buffered in the chunker.\<close>

definition afterHelloWor :: turn_state where
  "afterHelloWor =
     updateDraftFromPartial privateBlockParams (Some ''Hello wor'') (initialState privateBlockParams)"

section \<open>Runs\<close>

text \<open>A sequence of partial texts, handled one after the other.\<close>

definition feedPartials :: "dispatch_params \<Rightarrow> string option list \<Rightarrow> turn_state \<Rightarrow> turn_state" where
  "feedPartials P txts st = foldl (\<lambda>s txt. updateDraftFromPartial P txt s) st txts"

text \<open>The accumulated state an incremental restart discards: the last partial text, the
  draft text and the chunker's buffer.\<close>

definition discardBuffered :: "turn_state \<Rightarrow> turn_state" where
  "discardBuffered st =
     st\<lparr>lastPartialText := [], draftText := [],
        draftChunker := map_option chunker_reset (draftChunker st)\<rparr>"

text \<open>The state in which the dispatcher hands the turn back to
  \<^verbatim>\<open>dispatchTelegramMessage\<close> (line 175), before the terminating \<^verbatim>\<open>stop()\<close>.\<close>

definition afterDispatcher ::
  "dispatch_params \<Rightarrow> stream_event list \<Rightarrow> terminal_event \<Rightarrow> turn_state" where
  "afterDispatcher P events terminal =
     fst (dispatchReplyWithBufferedBlockDispatcher (dispatcherOptions P)
            (replyOptions P (initialDraftStream P)) events terminal (initialState P))"

text \<open>A draft that is stopped with nothing queued (or no draft at all).\<close>

definition settled :: "turn_state \<Rightarrow> bool" where
  "settled st =
     (case draftStream st of None \<Rightarrow> True | Some d \<Rightarrow> ds_stopped d \<and> ds_pending d = None)"

text \<open>The transport edits, the \<^verbatim>\<open>stop()\<close> of the draft and the deliveries: where the
  edits of the draft stand with respect to its end and to the permanent delivery.\<close>

fun isEditStopDelivery :: "effect \<Rightarrow> bool" where
  "isEditStopDelivery (EditLiveMessage t) = True"
| "isEditStopDelivery DraftStop = True"
| "isEditStopDelivery (DeliverReplies p) = True"
| "isEditStopDelivery e = False"

text \<open>The private chat with a throttle that never lets an \<^verbatim>\<open>update\<close> through at once:
  every text waits for the \<^verbatim>\<open>flush\<close>.\<close>

definition throttledParams :: dispatch_params where
  "throttledParams = privateBlockParams\<lparr>throttleOpen := (\<lambda>n. False)\<rparr>"

section \<open>Properties of the Chunk Splitter\<close>

lemma drainSafe_concat:
  "concat (fst (drainSafe pol buf)) @ snd (drainSafe pol buf) = buf"
proof (induction pol buf rule: drainSafe.induct)
  case (1 pol buf)
  show ?case
  proof (cases "cutIndex pol buf = 0")
    case True
    then show ?thesis by (simp add: drainSafe.simps)
  next
    case False
    with 1 show ?thesis
      by (subst (1 2) drainSafe.simps) (simp add: split_beta)
  qed
qed

lemma chunker_drain_concat:
  "concat (fst (chunker_drain force c)) @ buffer (snd (chunker_drain force c)) = buffer c"
  using drainSafe_concat [of "chunking c" "buffer c"]
  by (auto simp: chunker_drain_def split_beta)

lemma chunker_drain_forced_buffer: "buffer (snd (chunker_drain True c)) = []"
  by (simp add: chunker_drain_def split_beta)

lemma appendAndDrain_concat:
  "concat (fst (appendAndDrain c deltas)) @ buffer (snd (appendAndDrain c deltas))
     = buffer c @ concat deltas"
proof (induction deltas arbitrary: c)
  case Nil
  then show ?case by simp
next
  case (Cons delta deltas)
  let ?d = "chunker_drain False (chunker_append c delta)"
  have "concat (fst ?d) @ buffer (snd ?d) = buffer c @ delta"
    using chunker_drain_concat [of False "chunker_append c delta"]
    by (simp add: chunker_append_def)
  with Cons.IH [of "snd ?d"] show ?case
    by (simp add: split_beta)
qed

section \<open>The durable part of the trace\<close>

lemma durable_append [simp]: "durable (a @ b) = durable a @ durable b"
  by (simp add: durable_def)

lemma durable_Nil [simp]: "durable [] = []"
  by (simp add: durable_def)

lemma durable_Cons: "durable (e # es) = (if cosmetic e then durable es else e # durable es)"
  by (simp add: durable_def)

lemma durable_ds_sendPending [simp]: "durable (snd (ds_sendPending P d)) = []"
  by (simp add: ds_sendPending_def durable_Cons split: option.splits)

lemma durable_ds_update [simp]: "durable (snd (ds_update P t d)) = []"
  by (simp add: ds_update_def)

lemma durable_ds_flush [simp]: "durable (snd (ds_flush P d)) = []"
  by (simp add: ds_flush_def)

lemma durable_draft_update [simp]:
  "durable (trace (draft_update P t st)) = durable (trace st)"
  by (simp add: draft_update_def durable_Cons split: option.splits)

lemma durable_draft_flush [simp]:
  "durable (trace (draft_flush P st)) = durable (trace st)"
  by (simp add: draft_flush_def durable_Cons split: option.splits)

lemma durable_draft_stop [simp]:
  "durable (trace (draft_stop st)) = durable (trace st)"
  by (simp add: draft_stop_def ds_stop_def durable_Cons split: option.splits)

lemma durable_logVerbose [simp]:
  "durable (trace (logVerbose msg st)) = durable (trace st)"
  by (simp add: logVerbose_def durable_Cons)

lemma durable_emitChunks [simp]:
  "durable (trace (emitChunks P chunks st)) = durable (trace st)"
  by (induction chunks arbitrary: st) simp_all

lemma durable_updateDraftFromPartial [simp]:
  "durable (trace (updateDraftFromPartial P txt st)) = durable (trace st)"
  by (simp add: updateDraftFromPartial_def Let_def split_beta split: option.splits)

lemma durable_flushDraft [simp]:
  "durable (trace (flushDraft P st)) = durable (trace st)"
  by (simp add: flushDraft_def Let_def split_beta split: option.splits)

lemma durable_onReasoningStream [simp]:
  "durable (trace (onReasoningStream P payload st)) = durable (trace st)"
  by (simp add: onReasoningStream_def)

lemma durable_onReplyStart [simp]:
  "durable (trace (onReplyStart P st)) = durable (trace st)"
  by (simp add: onReplyStart_def createTypingCallbacks_def sendTyping_def onStartError_def
      durable_Cons split: option.splits)

lemma durable_handleEvent [simp]:
  "durable (trace (handleEvent (replyOptions P ds) st ev)) = durable (trace st)"
  by (cases ev) (simp_all add: replyOptions_def onPartialReply_def)

lemma durable_events [simp]:
  "durable (trace (foldl (handleEvent (replyOptions P ds)) st events)) = durable (trace st)"
  by (induction events arbitrary: st) simp_all

lemma durable_deliver:
  "durable (trace (fst (deliver P p kind st))) = durable (trace st) @ [DeliverReplies p]"
  by (simp add: deliver_def deliverReplies_def durable_Cons)

lemma snd_deliver: "snd (deliver P p kind st) = deliverFails P p"
  by (simp add: deliver_def deliverReplies_def)

lemma durable_onError:
  "durable (trace (onError P err kind st)) =
     durable (trace st) @ OnError err kind #
       (if runtimeHasError P then [RuntimeError (''telegram '' @ kind @ '' reply failed: '' @ err)]
        else [])"
  by (simp add: onError_def durable_Cons)

lemma dispatcherOptions_sel [simp]:
  "deliver_cb (dispatcherOptions P) = deliver P"
  "onError_cb (dispatcherOptions P) = onError P"
  "onReplyStart_cb (dispatcherOptions P) = onReplyStart P"
  by (simp_all add: dispatcherOptions_def)

lemma deliverFinals_Cons:
  "deliverFinals (dispatcherOptions P) (p # ps) st =
     (case deliverFails P p of
        None \<Rightarrow> deliverFinals (dispatcherOptions P) ps (fst (deliver P p ''final'' st))
      | Some err \<Rightarrow>
          deliverFinals (dispatcherOptions P) ps
            (onError P err ''final'' (fst (deliver P p ''final'' st))))"
  using snd_deliver [of P p "''final''" st]
  by (cases "deliver P p ''final'' st") (simp split: option.splits)

lemma durable_deliverFinals:
  "durable (trace (deliverFinals (dispatcherOptions P) ps st)) =
     durable (trace st) @ concat (map (expectedFinalEffects P) ps)"
proof (induction ps arbitrary: st)
  case Nil
  then show ?case by simp
next
  case (Cons p ps)
  show ?case
  proof (cases "deliverFails P p")
    case None
    then show ?thesis
      by (simp add: deliverFinals_Cons Cons.IH durable_deliver expectedFinalEffects_def
          del: deliverFinals.simps)
  next
    case (Some err)
    then show ?thesis
      by (simp add: deliverFinals_Cons Cons.IH durable_deliver durable_onError
          expectedFinalEffects_def del: deliverFinals.simps)
  qed
qed

lemma durable_dispatcher:
  "durable (trace (fst (dispatchReplyWithBufferedBlockDispatcher (dispatcherOptions P)
       (replyOptions P ds) events terminal st))) =
     durable (trace st) @
       (case terminal of NoReply \<Rightarrow> [] | Final ps \<Rightarrow> concat (map (expectedFinalEffects P) ps))"
  by (cases terminal)
     (simp_all add: dispatchReplyWithBufferedBlockDispatcher_def Let_def durable_deliverFinals)

lemma snd_dispatcher:
  "snd (dispatchReplyWithBufferedBlockDispatcher opts ro events terminal st) =
     (case terminal of NoReply \<Rightarrow> False | Final ps \<Rightarrow> True)"
  by (cases terminal) (simp_all add: dispatchReplyWithBufferedBlockDispatcher_def Let_def)

lemma queuedFinal_dispatch:
  "queuedFinal (dispatchTelegramMessage P events terminal) =
     (case terminal of NoReply \<Rightarrow> False | Final ps \<Rightarrow> True)"
  using snd_dispatcher [of "dispatcherOptions P" "replyOptions P (initialDraftStream P)"
      events terminal "initialState P"]
  by (simp add: dispatchTelegramMessage_def clearGroupHistory_def Let_def split_beta)

lemma durable_dispatch:
  "durable (trace (finalState (dispatchTelegramMessage P events terminal))) =
     (case terminal of
        NoReply \<Rightarrow> []
      | Final ps \<Rightarrow> concat (map (expectedFinalEffects P) ps) @ [RemoveAckReactionAfterReply]) @
     (if isGroup P \<and> truthy (historyKey P) then [ClearHistoryEntries (the (historyKey P))]
      else [])"
proof -
  let ?d = "dispatchReplyWithBufferedBlockDispatcher (dispatcherOptions P)
      (replyOptions P (initialDraftStream P)) events terminal (initialState P)"
  have tr: "durable (trace (fst ?d)) =
      (case terminal of NoReply \<Rightarrow> [] | Final ps \<Rightarrow> concat (map (expectedFinalEffects P) ps))"
    using durable_dispatcher [of P "initialDraftStream P" events terminal "initialState P"]
    by (simp add: initialState_def)
  have qf: "snd ?d = (case terminal of NoReply \<Rightarrow> False | Final ps \<Rightarrow> True)"
    by (rule snd_dispatcher)
  show ?thesis
    using tr qf
    by (cases terminal)
       (simp_all add: dispatchTelegramMessage_def clearGroupHistory_def Let_def split_beta
          durable_Cons)
qed

lemma deliveries_append [simp]: "deliveries (a @ b) = deliveries a @ deliveries b"
  by (induction a rule: deliveries.induct) simp_all

lemma deliveries_durable: "deliveries (durable tr) = deliveries tr"
  by (induction tr rule: deliveries.induct) (simp_all add: durable_Cons)

lemma deliveries_expected [simp]: "deliveries (expectedFinalEffects P p) = [p]"
  by (simp add: expectedFinalEffects_def split: option.splits)

lemma deliveries_expected_all [simp]:
  "deliveries (concat (map (expectedFinalEffects P) ps)) = ps"
  by (induction ps) simp_all

lemma set_durable: "set (durable tr) = {e \<in> set tr. \<not> cosmetic e}"
  by (simp add: durable_def)

lemma ClearHistory_expected [simp]:
  "ClearHistoryEntries k \<notin> set (expectedFinalEffects P p)"
  by (simp add: expectedFinalEffects_def split: option.splits)

lemma deliveries_dispatch:
  "deliveries (trace (finalState (dispatchTelegramMessage P events terminal))) =
     (case terminal of NoReply \<Rightarrow> [] | Final ps \<Rightarrow> ps)"
  by (subst deliveries_durable [symmetric]) (cases terminal; simp add: durable_dispatch)

lemma histories_dispatch:
  "histories (dispatchTelegramMessage P events terminal) =
     (if isGroup P \<and> truthy (historyKey P)
      then clearHistoryEntriesIfEnabled (groupHistories P) (the (historyKey P)) (historyLimit P)
      else groupHistories P)"
  by (simp add: dispatchTelegramMessage_def clearGroupHistory_def Let_def split_beta)

text \<open>
  Claim C4. A turn whose stream ends with the terminal "none" event calls
  \<^verbatim>\<open>deliverReplies\<close> (the one thing the delivery callback does to the channel) zero times,
  reports \<^verbatim>\<open>queuedFinal = false\<close>, and does nothing durable but the no-reply clean-up; a
  turn that ends with the terminal "final" event delivers each final payload exactly
  once, in order, and reports \<^verbatim>\<open>queuedFinal = true\<close>.
\<close>

theorem terminal_none_no_delivery_final_once_each:
  "deliveries (trace (finalState (dispatchTelegramMessage P events NoReply))) = [] \<and>
   queuedFinal (dispatchTelegramMessage P events NoReply) = False \<and>
   durable (trace (finalState (dispatchTelegramMessage P events NoReply))) =
     (if isGroup P \<and> truthy (historyKey P) then [ClearHistoryEntries (the (historyKey P))]
      else []) \<and>
   deliveries (trace (finalState (dispatchTelegramMessage P events (Final ps)))) = ps \<and>
   queuedFinal (dispatchTelegramMessage P events (Final ps)) = True"
  by (simp add: deliveries_dispatch queuedFinal_dispatch durable_dispatch)

lemma RemoveAck_expected [simp]:
  "RemoveAckReactionAfterReply \<notin> set (expectedFinalEffects P p)"
  by (simp add: expectedFinalEffects_def split: option.splits)

lemma durable_afterDispatcher:
  "durable (trace (afterDispatcher P events terminal)) =
     (case terminal of NoReply \<Rightarrow> [] | Final ps \<Rightarrow> concat (map (expectedFinalEffects P) ps))"
  using durable_dispatcher [of P "initialDraftStream P" events terminal "initialState P"]
  by (simp add: afterDispatcher_def initialState_def)

lemma no_cleanup_before_the_end:
  "ClearHistoryEntries k \<notin> set (trace (draft_stop (afterDispatcher P events terminal)))"
  "RemoveAckReactionAfterReply \<notin> set (trace (draft_stop (afterDispatcher P events terminal)))"
proof -
  let ?tr = "trace (draft_stop (afterDispatcher P events terminal))"
  have d: "durable ?tr =
      (case terminal of NoReply \<Rightarrow> [] | Final ps \<Rightarrow> concat (map (expectedFinalEffects P) ps))"
    by (simp add: durable_afterDispatcher)
  have "ClearHistoryEntries k \<notin> set (durable ?tr)"
    unfolding d by (cases terminal) simp_all
  then show "ClearHistoryEntries k \<notin> set ?tr"
    unfolding set_durable by simp
  have "RemoveAckReactionAfterReply \<notin> set (durable ?tr)"
    unfolding d by (cases terminal) simp_all
  then show "RemoveAckReactionAfterReply \<notin> set ?tr"
    unfolding set_durable by simp
qed

lemma trace_dispatch:
  "trace (finalState (dispatchTelegramMessage P events terminal)) =
     trace (draft_stop (afterDispatcher P events terminal)) @
     (if queuedFinal (dispatchTelegramMessage P events terminal)
      then [RemoveAckReactionAfterReply] else []) @
     (if isGroup P \<and> truthy (historyKey P) then [ClearHistoryEntries (the (historyKey P))]
      else [])"
  by (simp add: dispatchTelegramMessage_def afterDispatcher_def clearGroupHistory_def Let_def
      split_beta)

text \<open>
  Claim C5, as amended. The history clean-up for group contexts does not depend on
  whether a reply was produced: at the end of every turn, the histories are those
  \<^verbatim>\<open>clearHistoryEntriesIfEnabled\<close> returns when the context is a group with a history
  key, and unchanged otherwise; and the helper is called exactly in the first case. The
  call is the last effect of the turn: nothing is cleared while the dispatcher runs or
  the draft is stopped; on a turn that queued a final delivery the acknowledgement
  reaction is removed first and the history cleared after it; on a no-reply turn the
  acknowledgement-reaction removal is skipped and only the history is cleared.
\<close>

theorem history_cleanup_on_every_turn:
  "histories (dispatchTelegramMessage P events terminal) =
     (if isGroup P \<and> truthy (historyKey P)
      then clearHistoryEntriesIfEnabled (groupHistories P) (the (historyKey P)) (historyLimit P)
      else groupHistories P) \<and>
   (ClearHistoryEntries k \<in> set (trace (finalState (dispatchTelegramMessage P events terminal))))
     = (isGroup P \<and> historyKey P = Some k \<and> k \<noteq> []) \<and>
   trace (finalState (dispatchTelegramMessage P events terminal)) =
     trace (draft_stop (afterDispatcher P events terminal)) @
     (if queuedFinal (dispatchTelegramMessage P events terminal)
      then [RemoveAckReactionAfterReply] else []) @
     (if isGroup P \<and> truthy (historyKey P) then [ClearHistoryEntries (the (historyKey P))]
      else []) \<and>
   ClearHistoryEntries k \<notin> set (trace (draft_stop (afterDispatcher P events terminal))) \<and>
   RemoveAckReactionAfterReply \<notin> set (trace (draft_stop (afterDispatcher P events terminal)))"
proof -
  have "(ClearHistoryEntries k \<in> set (trace (finalState (dispatchTelegramMessage P events terminal))))
      = (ClearHistoryEntries k \<in>
           set (durable (trace (finalState (dispatchTelegramMessage P events terminal)))))"
    by (simp add: set_durable)
  also have "\<dots> = (isGroup P \<and> historyKey P = Some k \<and> k \<noteq> [])"
    by (cases terminal; cases "historyKey P") (auto simp: durable_dispatch)
  finally have called: "(ClearHistoryEntries k \<in>
      set (trace (finalState (dispatchTelegramMessage P events terminal))))
      = (isGroup P \<and> historyKey P = Some k \<and> k \<noteq> [])" .
  from called histories_dispatch [of P events terminal] trace_dispatch [of P events terminal]
    no_cleanup_before_the_end(1) [of k P events terminal]
    no_cleanup_before_the_end(2) [of P events terminal]
  show ?thesis
    by blast
qed

text \<open>The claim as the spec states it fails: a group turn that delivered its final
  payload has its buffered history entries cleared all the same.\<close>

theorem history_cleared_after_final_delivery:
  "queuedFinal (dispatchTelegramMessage groupParams [] (Final [helloPayload])) \<and>
   deliveries (trace (finalState (dispatchTelegramMessage groupParams [] (Final [helloPayload]))))
     = [helloPayload] \<and>
   groupHistories groupParams ''-2002'' = Some [''first'', ''second''] \<and>
   histories (dispatchTelegramMessage groupParams [] (Final [helloPayload])) ''-2002'' = Some []"
  by (simp add: deliveries_dispatch queuedFinal_dispatch histories_dispatch groupParams_def
      clearHistoryEntriesIfEnabled_def)

text \<open>
  Claim C7. For a terminal "final" event with payloads \<open>ps\<close>, the durable effects of the
  turn are, payload by payload and in the order of \<open>ps\<close>: the delivery of the payload,
  followed, exactly when that delivery fails, by the report of the error with the kind
  \<^verbatim>\<open>final\<close> to the error sink; then the clean-up. Whatever fails, \<^verbatim>\<open>deliverReplies\<close> is
  called for every payload of \<open>ps\<close>, once, in order.
\<close>

theorem final_payloads_in_order_failures_isolated:
  "durable (trace (finalState (dispatchTelegramMessage P events (Final ps)))) =
     concat (map (expectedFinalEffects P) ps) @ [RemoveAckReactionAfterReply] @
     (if isGroup P \<and> truthy (historyKey P) then [ClearHistoryEntries (the (historyKey P))]
      else []) \<and>
   deliveries (trace (finalState (dispatchTelegramMessage P events (Final ps)))) = ps"
  by (simp add: durable_dispatch deliveries_dispatch)

section \<open>Cosmetic failures\<close>

lemma expectedFinalEffects_cosmetic [simp]:
  "expectedFinalEffects (P\<lparr>typingFails := x, editFails := y\<rparr>) = expectedFinalEffects P"
  by (rule ext) (simp add: expectedFinalEffects_def split: option.splits)






section \<open>When a draft stream exists\<close>

lemma isDraftEffect_onReplyStart:
  "filter isDraftEffect (trace (onReplyStart P st)) = filter isDraftEffect (trace st) \<and>
   draftStream (onReplyStart P st) = draftStream st"
  by (simp add: onReplyStart_def createTypingCallbacks_def sendTyping_def onStartError_def
      logVerbose_def split: option.splits)

lemma flushDraft_no_stream: "draftStream st = None \<Longrightarrow> flushDraft P st = st"
  by (simp add: flushDraft_def)

lemma draft_stop_no_stream: "draftStream st = None \<Longrightarrow> draft_stop st = st"
  by (simp add: draft_stop_def)

lemma isDraftEffect_deliver:
  "draftStream st = None \<Longrightarrow>
   filter isDraftEffect (trace (fst (deliver P p kind st))) = filter isDraftEffect (trace st) \<and>
   draftStream (fst (deliver P p kind st)) = None"
  by (simp add: deliver_def deliverReplies_def flushDraft_no_stream draft_stop_no_stream)

lemma isDraftEffect_onError:
  "filter isDraftEffect (trace (onError P err kind st)) = filter isDraftEffect (trace st) \<and>
   draftStream (onError P err kind st) = draftStream st"
  by (simp add: onError_def)

lemma isDraftEffect_deliverFinals:
  "draftStream st = None \<Longrightarrow>
   filter isDraftEffect (trace (deliverFinals (dispatcherOptions P) ps st)) =
     filter isDraftEffect (trace st) \<and>
   draftStream (deliverFinals (dispatcherOptions P) ps st) = None"
proof (induction ps arbitrary: st)
  case Nil
  then show ?case by simp
next
  case (Cons p ps)
  let ?st = "fst (deliver P p ''final'' st)"
  have d: "filter isDraftEffect (trace ?st) = filter isDraftEffect (trace st)"
    "draftStream ?st = None"
    using isDraftEffect_deliver [OF Cons.prems] by simp_all
  show ?case
  proof (cases "deliverFails P p")
    case None
    with Cons.IH [OF d(2)] d(1) show ?thesis
      by (simp add: deliverFinals_Cons del: deliverFinals.simps)
  next
    case (Some err)
    have "draftStream (onError P err ''final'' ?st) = None"
      using d(2) by (simp add: isDraftEffect_onError)
    from Cons.IH [OF this] Some d(1) show ?thesis
      by (simp add: deliverFinals_Cons isDraftEffect_onError del: deliverFinals.simps)
  qed
qed

lemma events_no_handlers: "foldl (handleEvent (replyOptions P None)) st events = st"
proof (induction events arbitrary: st)
  case Nil
  then show ?case by simp
next
  case (Cons ev events)
  have "handleEvent (replyOptions P None) st ev = st"
    by (cases ev) (simp_all add: replyOptions_def)
  with Cons.IH show ?case by simp
qed

lemma isDraftEffect_dispatch:
  assumes "initialDraftStream P = None"
  shows "filter isDraftEffect (trace (finalState (dispatchTelegramMessage P events terminal))) = []"
proof -
  let ?st0 = "onReplyStart P (initialState P)"
  have st0: "filter isDraftEffect (trace ?st0) = []" "draftStream ?st0 = None"
    using assms by (simp_all add: isDraftEffect_onReplyStart initialState_def)
  show ?thesis
  proof (cases terminal)
    case NoReply
    with st0 assms show ?thesis
      by (simp add: dispatchTelegramMessage_def dispatchReplyWithBufferedBlockDispatcher_def
          clearGroupHistory_def Let_def events_no_handlers draft_stop_no_stream)
  next
    case (Final ps)
    with st0 assms isDraftEffect_deliverFinals [OF st0(2), of P ps] show ?thesis
      by (simp add: dispatchTelegramMessage_def dispatchReplyWithBufferedBlockDispatcher_def
          clearGroupHistory_def Let_def events_no_handlers draft_stop_no_stream)
  qed
qed

text \<open>
  Claim C9. A draft stream is created for the turn if and only if the stream mode is not
  \<^verbatim>\<open>off\<close>, the chat is private, the resolved thread id is a number and bot topics resolve
  as enabled. When none is created, neither the partial nor the reasoning handler is
  installed, and no event of any stream makes the turn call the draft controller or its
  transport.
\<close>

theorem draft_stream_iff_four_conditions:
  "(draftStream (initialState P) \<noteq> None) =
     (streamMode P \<noteq> ''off'' \<and> chatType P = ''private'' \<and> resolvedThreadId P \<noteq> None \<and>
      botTopicsEnabled P) \<and>
   (draftStream (initialState P) = None \<longrightarrow>
      onPartialReply_cb (replyOptions P (initialDraftStream P)) = None \<and>
      onReasoningStream_cb (replyOptions P (initialDraftStream P)) = None \<and>
      filter isDraftEffect (trace (finalState (dispatchTelegramMessage P events terminal))) = [])"
proof -
  have "(draftStream (initialState P) \<noteq> None) =
     (streamMode P \<noteq> ''off'' \<and> chatType P = ''private'' \<and> resolvedThreadId P \<noteq> None \<and>
      botTopicsEnabled P)"
    by (simp add: initialState_def initialDraftStream_def canStreamDraft_def isPrivateChat_def)
  moreover have "draftStream (initialState P) = initialDraftStream P"
    by (simp add: initialState_def)
  ultimately show ?thesis
    by (simp add: isDraftEffect_dispatch replyOptions_def)
qed

theorem draft_stream_iff_witness:
  "draftStream (initialState offParams) = None \<and>
   onPartialReply_cb (replyOptions offParams (initialDraftStream offParams)) = None \<and>
   onReasoningStream_cb (replyOptions offParams (initialDraftStream offParams)) = None \<and>
   filter isDraftEffect (trace (finalState (dispatchTelegramMessage offParams
       [Partial helloPayload, Reasoning helloPayload] (Final [helloPayload])))) = []"
  using draft_stream_iff_four_conditions [of offParams
      "[Partial helloPayload, Reasoning helloPayload]" "Final [helloPayload]"]
  by (simp add: offParams_def privateBlockParams_def)

text \<open>
  Claim C10. The character cap of the draft is the minimum of the configured text limit
  and 4096: that is the \<^verbatim>\<open>maxChars\<close> the draft stream is created with, whenever one is
  created, and it never exceeds 4096.
\<close>

theorem draftMaxChars_is_min_with_4096:
  "draftMaxChars P = min (textLimit P) 4096 \<and> draftMaxChars P \<le> 4096 \<and>
   map_option ds_maxChars (draftStream (initialState P)) =
     (if canStreamDraft P then Some (min (textLimit P) 4096) else None)"
  by (simp add: draftMaxChars_def initialState_def initialDraftStream_def
      createTelegramDraftStream_def)

section \<open>The draft calls leave the text state alone\<close>

lemma draft_update_fields [simp]:
  "lastPartialText (draft_update P t st) = lastPartialText st"
  "draftText (draft_update P t st) = draftText st"
  "draftChunker (draft_update P t st) = draftChunker st"
  "(draftStream (draft_update P t st) = None) = (draftStream st = None)"
  by (simp_all add: draft_update_def split: option.splits)

lemma draft_flush_fields [simp]:
  "lastPartialText (draft_flush P st) = lastPartialText st"
  "draftText (draft_flush P st) = draftText st"
  "draftChunker (draft_flush P st) = draftChunker st"
  "(draftStream (draft_flush P st) = None) = (draftStream st = None)"
  by (simp_all add: draft_flush_def split: option.splits)

lemma draft_stop_fields [simp]:
  "lastPartialText (draft_stop st) = lastPartialText st"
  "draftText (draft_stop st) = draftText st"
  "draftChunker (draft_stop st) = draftChunker st"
  "(draftStream (draft_stop st) = None) = (draftStream st = None)"
  by (simp_all add: draft_stop_def split: option.splits)

lemma bufferedText_draft_calls [simp]:
  "bufferedText (draft_update P t st) = bufferedText st"
  "bufferedText (draft_flush P st) = bufferedText st"
  "bufferedText (draft_stop st) = bufferedText st"
  by (simp_all add: bufferedText_def)

lemma emitChunks_fields [simp]:
  "lastPartialText (emitChunks P chunks st) = lastPartialText st"
  "draftText (emitChunks P chunks st) = draftText st @ concat chunks"
  "draftChunker (emitChunks P chunks st) = draftChunker st"
  "(draftStream (emitChunks P chunks st) = None) = (draftStream st = None)"
  by (induction chunks arbitrary: st) simp_all

lemma foldl_append_concat: "foldl (@) a xs = a @ concat xs"
  by (induction xs arbitrary: a) simp_all

lemma forced_drain_all: "concat (fst (chunker_drain True c)) = buffer c"
  using chunker_drain_concat [of True c] by (simp add: chunker_drain_forced_buffer)

lemma forced_drain_reset: "chunker_reset (snd (chunker_drain True c)) = chunker_reset c"
  by (simp add: chunker_drain_def chunker_reset_def split_beta)

text \<open>\<^verbatim>\<open>flushDraft\<close> with an active draft stream, in one equation: when text is buffered it
  is appended to the draft text, the chunker is emptied and \<^verbatim>\<open>update\<close> is called with
  the new draft text; then \<^verbatim>\<open>flush\<close>.\<close>

lemma flushDraft_eq:
  assumes "draftStream st \<noteq> None"
  shows "flushDraft P st =
     draft_flush P
       (if bufferedText st = [] then st
        else draft_update P (draftText st @ bufferedText st)
               (st\<lparr>draftText := draftText st @ bufferedText st,
                   draftChunker := map_option chunker_reset (draftChunker st)\<rparr>))"
proof (cases "draftChunker st")
  case None
  with assms show ?thesis
    by (simp add: flushDraft_def bufferedText_def del: not_None_eq)
next
  case (Some c)
  show ?thesis
  proof (cases "buffer c = []")
    case True
    with Some assms show ?thesis
      by (simp add: flushDraft_def bufferedText_def chunker_hasBuffered_def del: not_None_eq)
  next
    case False
    have emitted: "foldl (@) (draftText st) (fst (chunker_drain True c)) = draftText st @ buffer c"
      by (simp add: foldl_append_concat forced_drain_all)
    from False Some assms show ?thesis
      by (simp add: flushDraft_def bufferedText_def chunker_hasBuffered_def split_beta Let_def
          emitted forced_drain_reset del: not_None_eq)
  qed
qed

section \<open>The order of the final delivery\<close>

lemma calls_ds [simp]:
  "filter isCallOrDelivery (snd (ds_sendPending P d)) = []"
  "filter isCallOrDelivery (snd (ds_update P t d)) = []"
  "filter isCallOrDelivery (snd (ds_flush P d)) = []"
  "filter isCallOrDelivery (snd (ds_stop d)) = []"
  by (simp_all add: ds_sendPending_def ds_update_def ds_flush_def ds_stop_def
      split: option.splits)

lemma calls_draft_update:
  "draftStream st \<noteq> None \<Longrightarrow>
   filter isCallOrDelivery (trace (draft_update P t st)) =
     filter isCallOrDelivery (trace st) @ [DraftUpdate t]"
  by (auto simp: draft_update_def)

lemma calls_draft_flush:
  "draftStream st \<noteq> None \<Longrightarrow>
   filter isCallOrDelivery (trace (draft_flush P st)) =
     filter isCallOrDelivery (trace st) @ [DraftFlush]"
  by (auto simp: draft_flush_def)

lemma calls_draft_stop:
  "draftStream st \<noteq> None \<Longrightarrow>
   filter isCallOrDelivery (trace (draft_stop st)) =
     filter isCallOrDelivery (trace st) @ [DraftStop]"
  by (auto simp: draft_stop_def)

lemma ds_sendPending_pending [simp]: "ds_pending (fst (ds_sendPending P d)) = None"
  by (simp add: ds_sendPending_def split: option.splits)

lemma draft_flush_then_stop:
  "draftStream st \<noteq> None \<Longrightarrow>
   map_option ds_pending (draftStream (draft_stop (draft_flush P st))) = Some None \<and>
   map_option ds_stopped (draftStream (draft_stop (draft_flush P st))) = Some True"
  by (auto simp: draft_stop_def draft_flush_def ds_stop_def)

lemma flushDraft_fields:
  assumes "draftStream st \<noteq> None"
  shows "draftText (flushDraft P st) = draftText st @ bufferedText st"
    and "bufferedText (flushDraft P st) = []"
    and "lastPartialText (flushDraft P st) = lastPartialText st"
    and "draftStream (flushDraft P st) \<noteq> None"
  using assms
  by (auto simp: flushDraft_eq bufferedText_def chunker_reset_def simp del: not_None_eq
      split: option.splits)

lemma calls_flushDraft:
  assumes "draftStream st \<noteq> None"
  shows "filter isCallOrDelivery (trace (flushDraft P st)) =
     filter isCallOrDelivery (trace st) @
     (if bufferedText st = [] then [] else [DraftUpdate (draftText st @ bufferedText st)]) @
     [DraftFlush]"
  using assms
  by (simp add: flushDraft_eq calls_draft_flush calls_draft_update del: not_None_eq)

lemma fst_deliver_final:
  "fst (deliver P payload ''final'' st) =
     (draft_stop (flushDraft P st))
       \<lparr>trace := trace (draft_stop (flushDraft P st)) @ [DeliverReplies payload]\<rparr>"
  by (simp add: deliver_def deliverReplies_def)

lemma deliver_final_calls:
  assumes "draftStream st \<noteq> None"
  shows "filter isCallOrDelivery (trace (fst (deliver P payload ''final'' st))) =
           filter isCallOrDelivery (trace st) @
           (if draftText (fst (deliver P payload ''final'' st)) \<noteq> draftText st
            then [DraftUpdate (draftText (fst (deliver P payload ''final'' st)))] else []) @
           [DraftFlush, DraftStop, DeliverReplies payload] \<and>
         trace (fst (deliver P payload ''final'' st)) =
           trace (draft_stop (flushDraft P st)) @ [DeliverReplies payload] \<and>
         draftText (fst (deliver P payload ''final'' st)) = draftText st @ bufferedText st \<and>
         bufferedText (fst (deliver P payload ''final'' st)) = [] \<and>
         map_option ds_pending (draftStream (fst (deliver P payload ''final'' st))) = Some None \<and>
         map_option ds_stopped (draftStream (fst (deliver P payload ''final'' st))) = Some True"
proof -
  let ?st' = "fst (deliver P payload ''final'' st)"
  have text': "draftText ?st' = draftText st @ bufferedText st"
    using assms by (simp add: fst_deliver_final flushDraft_fields)
  have buffered: "bufferedText ?st' = []"
    using flushDraft_fields(2) [OF assms, of P]
    by (simp add: fst_deliver_final bufferedText_def)
  have "filter isCallOrDelivery (trace ?st') =
      filter isCallOrDelivery (trace (flushDraft P st)) @ [DraftStop, DeliverReplies payload]"
    using flushDraft_fields(4) [OF assms, of P]
    by (simp add: fst_deliver_final calls_draft_stop)
  then have calls: "filter isCallOrDelivery (trace ?st') =
      filter isCallOrDelivery (trace st) @
      (if bufferedText st = [] then [] else [DraftUpdate (draftText st @ bufferedText st)]) @
      [DraftFlush, DraftStop, DeliverReplies payload]"
    using assms by (simp add: calls_flushDraft)
  let ?mid = "if bufferedText st = [] then st
       else draft_update P (draftText st @ bufferedText st)
              (st\<lparr>draftText := draftText st @ bufferedText st,
                  draftChunker := map_option chunker_reset (draftChunker st)\<rparr>)"
  have mid: "draftStream ?mid \<noteq> None"
    using assms by (simp del: not_None_eq)
  have "draftStream ?st' = draftStream (draft_stop (draft_flush P ?mid))"
    using assms by (simp add: fst_deliver_final flushDraft_eq)
  then have stopped: "map_option ds_pending (draftStream ?st') = Some None"
    "map_option ds_stopped (draftStream ?st') = Some True"
    using draft_flush_then_stop [OF mid, of P] by simp_all
  from text' buffered calls stopped show ?thesis
    by (simp add: fst_deliver_final)
qed

lemma edits_draft_stop:
  "draftStream st \<noteq> None \<Longrightarrow>
   filter isEditStopDelivery (trace (draft_stop st)) =
     filter isEditStopDelivery (trace st) @ [DraftStop]"
  by (auto simp: draft_stop_def ds_stop_def)

lemma edits_ds_sendPending:
  "filter isEditStopDelivery (snd (ds_sendPending P d)) =
     (case ds_pending d of None \<Rightarrow> [] | Some t \<Rightarrow> [EditLiveMessage t])"
  by (simp add: ds_sendPending_def split: option.splits)

lemma lastSent_ds_sendPending:
  "editFails P (ds_edits d) = None \<Longrightarrow>
   ds_lastSent (fst (ds_sendPending P d)) =
     (case ds_pending d of None \<Rightarrow> ds_lastSent d | Some t \<Rightarrow> Some t)"
  by (simp add: ds_sendPending_def split: option.splits)

text \<open>What \<^verbatim>\<open>flushDraft\<close> hands to the transport: the text of its own \<^verbatim>\<open>update\<close> when
  it makes one and the draft is not stopped, else the text that was still queued.\<close>

lemma flushDraft_edits:
  assumes "draftStream st = Some d"
  shows "filter isEditStopDelivery (trace (flushDraft P st)) =
           filter isEditStopDelivery (trace st) @
           (if bufferedText st \<noteq> [] \<and> \<not> ds_stopped d
            then [EditLiveMessage (draftText st @ bufferedText st)]
            else (case ds_pending d of None \<Rightarrow> [] | Some t \<Rightarrow> [EditLiveMessage t]))"
    and "editFails P (ds_edits d) = None \<Longrightarrow>
         map_option ds_lastSent (draftStream (flushDraft P st)) =
           Some (if bufferedText st \<noteq> [] \<and> \<not> ds_stopped d
                 then Some (draftText st @ bufferedText st)
                 else (case ds_pending d of None \<Rightarrow> ds_lastSent d | Some t \<Rightarrow> Some t))"
proof -
  have stream: "draftStream st \<noteq> None"
    using assms by simp
  show "filter isEditStopDelivery (trace (flushDraft P st)) =
           filter isEditStopDelivery (trace st) @
           (if bufferedText st \<noteq> [] \<and> \<not> ds_stopped d
            then [EditLiveMessage (draftText st @ bufferedText st)]
            else (case ds_pending d of None \<Rightarrow> [] | Some t \<Rightarrow> [EditLiveMessage t]))"
    using assms
    by (simp add: flushDraft_eq [OF stream] draft_flush_def draft_update_def ds_update_def
        ds_flush_def edits_ds_sendPending)
  show "map_option ds_lastSent (draftStream (flushDraft P st)) =
           Some (if bufferedText st \<noteq> [] \<and> \<not> ds_stopped d
                 then Some (draftText st @ bufferedText st)
                 else (case ds_pending d of None \<Rightarrow> ds_lastSent d | Some t \<Rightarrow> Some t))"
    if "editFails P (ds_edits d) = None"
    using assms that
    by (simp add: flushDraft_eq [OF stream] draft_flush_def draft_update_def ds_update_def
        ds_flush_def ds_sendPending_def split: option.splits)
qed

lemma draft_stop_lastSent:
  "map_option ds_lastSent (draftStream (draft_stop st)) = map_option ds_lastSent (draftStream st)"
  by (simp add: draft_stop_def ds_stop_def split: option.splits)

text \<open>
  Claim C3. When the delivery callback is invoked for a final payload and a draft is
  active, then, before \<^verbatim>\<open>deliverReplies\<close> is called: the chunker is force-drained and the
  remaining text is appended to the draft text; \<^verbatim>\<open>update\<close> is called with the new draft
  text if and only if the draft text changed; then \<^verbatim>\<open>flush\<close>; then \<^verbatim>\<open>stop\<close>. The
  flush is complete before the delivery: the text of that last \<^verbatim>\<open>update\<close> (or, when
  there was none, the text still queued in the controller) is handed to the transport
  before \<^verbatim>\<open>stop\<close> and before \<^verbatim>\<open>deliverReplies\<close>, and when that edit succeeds it is the
  text the controller has last rendered. At the delivery the draft controller has nothing
  pending and is stopped.
\<close>

theorem final_delivery_after_flush_and_stop:
  assumes "draftStream st = Some d"
  shows "filter isCallOrDelivery (trace (fst (deliver P payload ''final'' st))) =
           filter isCallOrDelivery (trace st) @
           (if draftText (fst (deliver P payload ''final'' st)) \<noteq> draftText st
            then [DraftUpdate (draftText (fst (deliver P payload ''final'' st)))] else []) @
           [DraftFlush, DraftStop, DeliverReplies payload] \<and>
         trace (fst (deliver P payload ''final'' st)) =
           trace (draft_stop (flushDraft P st)) @ [DeliverReplies payload] \<and>
         draftText (fst (deliver P payload ''final'' st)) = draftText st @ bufferedText st \<and>
         bufferedText (fst (deliver P payload ''final'' st)) = [] \<and>
         map_option ds_pending (draftStream (fst (deliver P payload ''final'' st))) = Some None \<and>
         map_option ds_stopped (draftStream (fst (deliver P payload ''final'' st))) = Some True \<and>
         filter isEditStopDelivery (trace (fst (deliver P payload ''final'' st))) =
           filter isEditStopDelivery (trace st) @
           (if bufferedText st \<noteq> [] \<and> \<not> ds_stopped d
            then [EditLiveMessage (draftText st @ bufferedText st)]
            else (case ds_pending d of None \<Rightarrow> [] | Some t \<Rightarrow> [EditLiveMessage t])) @
           [DraftStop, DeliverReplies payload] \<and>
         (editFails P (ds_edits d) = None \<longrightarrow>
            map_option ds_lastSent (draftStream (fst (deliver P payload ''final'' st))) =
              Some (if bufferedText st \<noteq> [] \<and> \<not> ds_stopped d
                    then Some (draftText st @ bufferedText st)
                    else (case ds_pending d of None \<Rightarrow> ds_lastSent d | Some t \<Rightarrow> Some t)))"
proof -
  let ?st' = "fst (deliver P payload ''final'' st)"
  have stream: "draftStream st \<noteq> None"
    using assms by simp
  have flushed: "draftStream (flushDraft P st) \<noteq> None"
    using stream by (rule flushDraft_fields(4))
  have "filter isEditStopDelivery (trace ?st') =
      filter isEditStopDelivery (trace (flushDraft P st)) @ [DraftStop, DeliverReplies payload]"
    using flushed by (simp add: fst_deliver_final edits_draft_stop del: not_None_eq)
  then have edits: "filter isEditStopDelivery (trace ?st') =
      filter isEditStopDelivery (trace st) @
      (if bufferedText st \<noteq> [] \<and> \<not> ds_stopped d
       then [EditLiveMessage (draftText st @ bufferedText st)]
       else (case ds_pending d of None \<Rightarrow> [] | Some t \<Rightarrow> [EditLiveMessage t])) @
      [DraftStop, DeliverReplies payload]"
    by (simp only: flushDraft_edits(1) [OF assms] append_assoc)
  have rendered: "map_option ds_lastSent (draftStream ?st') =
      Some (if bufferedText st \<noteq> [] \<and> \<not> ds_stopped d
            then Some (draftText st @ bufferedText st)
            else (case ds_pending d of None \<Rightarrow> ds_lastSent d | Some t \<Rightarrow> Some t))"
    if "editFails P (ds_edits d) = None"
    using flushDraft_edits(2) [OF assms that]
    by (simp add: fst_deliver_final draft_stop_lastSent)
  from deliver_final_calls [OF stream, of P payload] edits rendered show ?thesis
    by blast
qed

lemma updateDraftFromPartial_stream [simp]:
  "(draftStream (updateDraftFromPartial P txt st) = None) = (draftStream st = None)"
  by (simp add: updateDraftFromPartial_def Let_def split_beta split: option.splits)

lemma privateBlockParams_initial:
  "draftStream (initialState privateBlockParams) =
     Some (createTelegramDraftStream 4000 (Some 7)) \<and>
   draftChunker (initialState privateBlockParams) = Some (EmbeddedBlockChunker neverSafe)"
  by (simp add: initialState_def initialDraftStream_def initialDraftChunker_def
      canStreamDraft_def isPrivateChat_def draftMaxChars_def privateBlockParams_def)

lemma drainSafe_neverSafe: "drainSafe neverSafe buf = ([], buf)"
  by (subst drainSafe.simps) (simp add: cutIndex_def neverSafe_def)

lemma afterHelloWor_state:
  "draftStream afterHelloWor \<noteq> None"
  "lastPartialText afterHelloWor = ''Hello wor''"
  "draftText afterHelloWor = []"
  "bufferedText afterHelloWor = ''Hello wor''"
proof -
  show "draftStream afterHelloWor \<noteq> None"
    by (simp add: afterHelloWor_def privateBlockParams_initial del: not_None_eq)
  have start: "lastPartialText (initialState privateBlockParams) = []"
    "draftText (initialState privateBlockParams) = []"
    by (simp_all add: initialState_def)
  have mode: "streamMode privateBlockParams = ''block''"
    by (simp add: privateBlockParams_def)
  show "lastPartialText afterHelloWor = ''Hello wor''"
    by (simp add: afterHelloWor_def updateDraftFromPartial_def privateBlockParams_initial
        start mode Let_def split_beta)
  show "draftText afterHelloWor = []"
    by (simp add: afterHelloWor_def updateDraftFromPartial_def privateBlockParams_initial
        start mode Let_def split_beta chunker_drain_def chunker_append_def
        EmbeddedBlockChunker_def drainSafe_neverSafe)
  show "bufferedText afterHelloWor = ''Hello wor''"
    by (simp add: afterHelloWor_def updateDraftFromPartial_def privateBlockParams_initial
        start mode Let_def split_beta chunker_drain_def chunker_append_def
        EmbeddedBlockChunker_def drainSafe_neverSafe bufferedText_def)
qed

lemma afterHelloWor_stream:
  "draftStream afterHelloWor = Some (createTelegramDraftStream 4000 (Some 7))"
proof -
  have start: "lastPartialText (initialState privateBlockParams) = []"
    by (simp add: initialState_def)
  have mode: "streamMode privateBlockParams = ''block''"
    by (simp add: privateBlockParams_def)
  show ?thesis
    by (simp add: afterHelloWor_def updateDraftFromPartial_def privateBlockParams_initial
        start mode Let_def split_beta chunker_drain_def chunker_append_def
        EmbeddedBlockChunker_def drainSafe_neverSafe)
qed

theorem final_delivery_order_witness:
  "draftStream afterHelloWor = Some (createTelegramDraftStream 4000 (Some 7)) \<and>
   filter isCallOrDelivery
     (trace (fst (deliver throttledParams helloPayload ''final'' afterHelloWor))) =
     filter isCallOrDelivery (trace afterHelloWor) @
     [DraftUpdate ''Hello wor'', DraftFlush, DraftStop, DeliverReplies helloPayload] \<and>
   draftText (fst (deliver throttledParams helloPayload ''final'' afterHelloWor)) =
     ''Hello wor'' \<and>
   filter isEditStopDelivery
     (trace (fst (deliver throttledParams helloPayload ''final'' afterHelloWor))) =
     filter isEditStopDelivery (trace afterHelloWor) @
     [EditLiveMessage ''Hello wor'', DraftStop, DeliverReplies helloPayload] \<and>
   editFails throttledParams (ds_edits (createTelegramDraftStream 4000 (Some 7))) = None \<and>
   map_option ds_lastSent
     (draftStream (fst (deliver throttledParams helloPayload ''final'' afterHelloWor))) =
     Some (Some ''Hello wor'')"
proof -
  let ?st' = "fst (deliver throttledParams helloPayload ''final'' afterHelloWor)"
  let ?d = "createTelegramDraftStream 4000 (Some 7)"
  note order = final_delivery_after_flush_and_stop [OF afterHelloWor_stream,
      of throttledParams helloPayload]
  have text': "draftText ?st' = ''Hello wor''"
    using order [THEN conjunct2, THEN conjunct2, THEN conjunct1]
    by (simp add: afterHelloWor_state)
  have calls: "filter isCallOrDelivery (trace ?st') =
      filter isCallOrDelivery (trace afterHelloWor) @
      (if draftText ?st' \<noteq> draftText afterHelloWor then [DraftUpdate (draftText ?st')] else []) @
      [DraftFlush, DraftStop, DeliverReplies helloPayload]"
    using order by (rule conjunct1)
  have started: "\<not> ds_stopped ?d" "ds_pending ?d = None"
    by (simp_all add: createTelegramDraftStream_def)
  have ok: "editFails throttledParams (ds_edits ?d) = None"
    by (simp add: throttledParams_def privateBlockParams_def)
  have "filter isEditStopDelivery (trace ?st') =
      filter isEditStopDelivery (trace afterHelloWor) @
      (if bufferedText afterHelloWor \<noteq> [] \<and> \<not> ds_stopped ?d
       then [EditLiveMessage (draftText afterHelloWor @ bufferedText afterHelloWor)]
       else (case ds_pending ?d of None \<Rightarrow> [] | Some t \<Rightarrow> [EditLiveMessage t])) @
      [DraftStop, DeliverReplies helloPayload]"
    using order by blast
  then have edits: "filter isEditStopDelivery (trace ?st') =
      filter isEditStopDelivery (trace afterHelloWor) @
      [EditLiveMessage ''Hello wor'', DraftStop, DeliverReplies helloPayload]"
    by (simp add: afterHelloWor_state(3,4) started)
  have "map_option ds_lastSent (draftStream ?st') =
      Some (if bufferedText afterHelloWor \<noteq> [] \<and> \<not> ds_stopped ?d
            then Some (draftText afterHelloWor @ bufferedText afterHelloWor)
            else (case ds_pending ?d of None \<Rightarrow> ds_lastSent ?d | Some t \<Rightarrow> Some t))"
    using order ok by blast
  then have rendered: "map_option ds_lastSent (draftStream ?st') = Some (Some ''Hello wor'')"
    by (simp add: afterHelloWor_state(3,4) started)
  from calls text' have "filter isCallOrDelivery (trace ?st') =
      filter isCallOrDelivery (trace afterHelloWor) @
      [DraftUpdate ''Hello wor'', DraftFlush, DraftStop, DeliverReplies helloPayload]"
    by (simp add: afterHelloWor_state(3))
  with text' edits ok rendered afterHelloWor_stream show ?thesis
    by blast
qed

section \<open>Stopping the draft\<close>

lemma ds_stop_twice: "ds_stop (fst (ds_stop d)) = (fst (ds_stop d), [])"
  by (simp add: ds_stop_def)

lemma ds_update_stopped: "ds_update P t (fst (ds_stop d)) = (fst (ds_stop d), [])"
  by (simp add: ds_update_def ds_stop_def)

lemma ds_flush_stopped: "ds_flush P (fst (ds_stop d)) = (fst (ds_stop d), [])"
  by (simp add: ds_flush_def ds_sendPending_def ds_stop_def)

lemma transport_draft_stop [simp]:
  "filter isTransportCall (trace (draft_stop st)) = filter isTransportCall (trace st)"
  by (simp add: draft_stop_def ds_stop_def split: option.splits)

lemma draft_stop_twice: "draftStream (draft_stop (draft_stop st)) = draftStream (draft_stop st)"
  by (simp add: draft_stop_def ds_stop_def split: option.splits)

lemma settled_draft_stop [simp]: "settled (draft_stop st)"
  by (simp add: settled_def draft_stop_def ds_stop_def split: option.splits)

lemma draft_stop_settled: "settled st \<Longrightarrow> draftStream (draft_stop st) = draftStream st"
  by (auto simp: settled_def draft_stop_def ds_stop_def split: option.splits)

lemma settled_deliver_final [simp]: "settled (fst (deliver P p ''final'' st))"
proof -
  have "settled (draft_stop (flushDraft P st))" by simp
  then show ?thesis by (simp add: fst_deliver_final settled_def)
qed

lemma settled_onError [simp]: "settled (onError P err kind st) = settled st"
  by (simp add: settled_def onError_def)

lemma settled_deliverFinals:
  "settled st \<Longrightarrow> settled (deliverFinals (dispatcherOptions P) ps st)"
proof (induction ps arbitrary: st)
  case Nil
  then show ?case by simp
next
  case (Cons p ps)
  show ?case
    by (cases "deliverFails P p")
       (simp_all add: deliverFinals_Cons Cons.IH del: deliverFinals.simps)
qed

lemma settled_after_final: "settled (afterDispatcher P events (Final (p # ps)))"
proof -
  let ?st = "foldl (handleEvent (replyOptions P (initialDraftStream P)))
      (onReplyStart P (initialState P)) events"
  have "settled (deliverFinals (dispatcherOptions P) (p # ps) ?st)"
    by (cases "deliverFails P p")
       (simp_all add: deliverFinals_Cons settled_deliverFinals del: deliverFinals.simps)
  then show ?thesis
    by (simp add: afterDispatcher_def dispatchReplyWithBufferedBlockDispatcher_def Let_def
        del: deliverFinals.simps)
qed

lemma finalState_dispatch:
  "draftStream (finalState (dispatchTelegramMessage P events terminal)) =
     draftStream (draft_stop (afterDispatcher P events terminal)) \<and>
   filter isTransportCall (trace (finalState (dispatchTelegramMessage P events terminal))) =
     filter isTransportCall (trace (afterDispatcher P events terminal))"
  by (simp add: dispatchTelegramMessage_def afterDispatcher_def clearGroupHistory_def Let_def
      split_beta)

text \<open>
  Claim C6. \<^verbatim>\<open>stop()\<close> is idempotent. A second \<^verbatim>\<open>stop()\<close> changes nothing and calls
  nothing; \<^verbatim>\<open>stop()\<close> after \<^verbatim>\<open>flush()\<close> calls nothing; after \<^verbatim>\<open>stop()\<close>, \<^verbatim>\<open>update\<close> and
  \<^verbatim>\<open>flush\<close> change nothing and call nothing. In the turn: after a terminal "final" event
  with at least one payload the delivery path has stopped the draft, and the terminating
  \<^verbatim>\<open>draftStream?.stop()\<close> of line 176 leaves the draft controller as it is and adds no
  transport call.
\<close>

theorem stop_is_idempotent:
  "ds_stop (fst (ds_stop d)) = (fst (ds_stop d), []) \<and>
   snd (ds_stop (fst (ds_flush P d))) = [] \<and>
   ds_update P t (fst (ds_stop d)) = (fst (ds_stop d), []) \<and>
   ds_flush P (fst (ds_stop d)) = (fst (ds_stop d), []) \<and>
   draftStream (draft_stop (draft_stop st)) = draftStream (draft_stop st) \<and>
   filter isTransportCall (trace (draft_stop (draft_stop st))) =
     filter isTransportCall (trace st) \<and>
   draftStream (finalState (dispatchTelegramMessage P events (Final (p # ps)))) =
     draftStream (afterDispatcher P events (Final (p # ps))) \<and>
   filter isTransportCall (trace (finalState (dispatchTelegramMessage P events (Final (p # ps))))) =
     filter isTransportCall (trace (afterDispatcher P events (Final (p # ps))))"
proof -
  have "snd (ds_stop (fst (ds_flush P d))) = []"
    by (simp add: ds_stop_def)
  moreover have "draftStream (finalState (dispatchTelegramMessage P events (Final (p # ps)))) =
      draftStream (afterDispatcher P events (Final (p # ps)))"
    using draft_stop_settled [OF settled_after_final, of P events p ps]
    by (simp add: finalState_dispatch)
  ultimately show ?thesis
    by (simp add: ds_stop_twice ds_update_stopped ds_flush_stopped draft_stop_twice
        finalState_dispatch)
qed

section \<open>Non-monotonic partial streams\<close>

lemma updateDraftFromPartial_empty: "updateDraftFromPartial P (Some []) st = st"
  by (simp add: updateDraftFromPartial_def)

lemma updateDraftFromPartial_missing: "updateDraftFromPartial P None st = st"
  by (simp add: updateDraftFromPartial_def)

lemma updateDraftFromPartial_restart:
  assumes "draftStream st \<noteq> None" "streamMode P \<noteq> ''partial''" "t \<noteq> []"
    "\<not> prefix (lastPartialText st) t"
  shows "updateDraftFromPartial P (Some t) st =
     updateDraftFromPartial P (Some t) (discardBuffered st)"
proof -
  have last: "t \<noteq> lastPartialText st"
    using assms(4) by auto
  show ?thesis
    using assms last
    by (cases "draftChunker st")
       (simp_all add: updateDraftFromPartial_def Let_def discardBuffered_def split_beta
          del: not_None_eq)
qed

text \<open>In incremental mode the rendered text followed by the buffered text is always the
  last partial text seen: the draft is a prefix of the current branch.\<close>

lemma updateDraftFromPartial_consistent:
  assumes "streamMode P \<noteq> ''partial''"
    and "draftText st @ bufferedText st = lastPartialText st"
  shows "draftText (updateDraftFromPartial P tx st) @
         bufferedText (updateDraftFromPartial P tx st) =
         lastPartialText (updateDraftFromPartial P tx st)"
proof (cases "draftStream st = None \<or> \<not> truthy tx \<or> the tx = lastPartialText st")
  case True
  with assms(2) show ?thesis
    by (auto simp: updateDraftFromPartial_def Let_def)
next
  case False
  define t where "t = the tx"
  define ext where "ext = prefix (lastPartialText st) t"
  define delta where "delta = (if ext then drop (length (lastPartialText st)) t else t)"
  have t: "t \<noteq> lastPartialText st" "draftStream st \<noteq> None" "truthy tx"
    using False by (simp_all add: t_def)
  have delta: "ext \<Longrightarrow> lastPartialText st @ delta = t"
    by (auto simp: delta_def ext_def prefix_def)
  show ?thesis
  proof (cases "draftChunker st")
    case None
    with assms t show ?thesis
      by (simp add: updateDraftFromPartial_def Let_def bufferedText_def t_def [symmetric]
          del: not_None_eq)
         (auto simp: prefix_def)
  next
    case (Some c)
    let ?c = "if ext then c else chunker_reset c"
    let ?d = "chunker_drain False (chunker_append ?c delta)"
    have drained: "concat (fst ?d) @ buffer (snd ?d) = buffer ?c @ delta"
      using chunker_drain_concat [of False "chunker_append ?c delta"]
      by (simp add: chunker_append_def)
    show ?thesis
    proof (cases ext)
      case True
      then have "delta \<noteq> []"
        using delta t(1) by auto
      moreover have "draftText st @ concat (fst ?d) @ buffer (snd ?d) = t"
      proof -
        have "draftText st @ buffer c = lastPartialText st"
          using assms(2) Some by (simp add: bufferedText_def)
        then have "draftText st @ buffer c @ delta = t"
          using delta [OF True] by (metis append.assoc)
        with drained True show ?thesis by simp
      qed
      moreover have "prefix (lastPartialText st) t"
        "drop (length (lastPartialText st)) t = delta"
        using True by (simp_all add: ext_def delta_def)
      ultimately show ?thesis
        using assms(1) t Some True
        by (simp add: updateDraftFromPartial_def Let_def bufferedText_def split_beta
            t_def [symmetric] del: not_None_eq)
    next
      case False
      then have d: "delta = t" by (simp add: delta_def)
      have "t \<noteq> []"
        using t(3) by (cases tx) (simp_all add: t_def)
      moreover have "concat (fst ?d) @ buffer (snd ?d) = t"
        using drained False d by (simp add: chunker_reset_def)
      moreover have "\<not> prefix (lastPartialText st) t"
        using False by (simp add: ext_def)
      ultimately show ?thesis
        using assms(1) t Some d False
        by (simp add: updateDraftFromPartial_def Let_def bufferedText_def split_beta
            t_def [symmetric] del: not_None_eq)
    qed
  qed
qed

lemma feedPartials_consistent:
  assumes "streamMode P \<noteq> ''partial''"
    and "draftText st @ bufferedText st = lastPartialText st"
  shows "draftText (feedPartials P txts st) @ bufferedText (feedPartials P txts st) =
         lastPartialText (feedPartials P txts st)"
  using assms(2)
proof (induction txts arbitrary: st)
  case Nil
  then show ?case by (simp add: feedPartials_def)
next
  case (Cons tx txts)
  have "draftText (updateDraftFromPartial P tx st) @
        bufferedText (updateDraftFromPartial P tx st) =
        lastPartialText (updateDraftFromPartial P tx st)"
    using assms(1) Cons.prems by (rule updateDraftFromPartial_consistent)
  from Cons.IH [OF this] show ?case by (simp add: feedPartials_def)
qed

lemma feedPartials_stream [simp]:
  "(draftStream (feedPartials P txts st) = None) = (draftStream st = None)"
  by (induction txts arbitrary: st) (simp_all add: feedPartials_def)

lemma updateDraftFromPartial_last:
  "draftStream st \<noteq> None \<Longrightarrow> t \<noteq> [] \<Longrightarrow>
   lastPartialText (updateDraftFromPartial P (Some t) st) = t"
  by (cases "draftChunker st")
     (simp_all add: updateDraftFromPartial_def Let_def split_beta del: not_None_eq)

lemma discardBuffered_fields [simp]:
  "draftText (discardBuffered st) = []"
  "bufferedText (discardBuffered st) = []"
  "lastPartialText (discardBuffered st) = []"
  "draftStream (discardBuffered st) = draftStream st"
  by (simp_all add: discardBuffered_def bufferedText_def chunker_reset_def split: option.splits)

text \<open>
  Claim C2, as amended. In incremental delta mode, when a partial-text event carries a
  non-empty text that does not extend the previously seen partial text, the dispatcher
  handles it exactly as it would after discarding the last partial text, the accumulated
  draft text and the chunker's buffer. From then on the rendered draft text followed by
  the buffered text is the latest partial text, whatever partial texts follow, and the
  final flush renders exactly the latest partial text: nothing of the old branch is left.
  A partial event whose text is empty or missing changes nothing.
\<close>

theorem non_extending_partial_restarts:
  assumes "draftStream st \<noteq> None" and "streamMode P \<noteq> ''partial''" and "t \<noteq> []"
    and "\<not> prefix (lastPartialText st) t"
  shows "updateDraftFromPartial P (Some t) st =
           updateDraftFromPartial P (Some t) (discardBuffered st) \<and>
         lastPartialText (updateDraftFromPartial P (Some t) st) = t \<and>
         draftText (updateDraftFromPartial P (Some t) st) @
           bufferedText (updateDraftFromPartial P (Some t) st) = t \<and>
         draftText (feedPartials P txts (updateDraftFromPartial P (Some t) st)) @
           bufferedText (feedPartials P txts (updateDraftFromPartial P (Some t) st)) =
           lastPartialText (feedPartials P txts (updateDraftFromPartial P (Some t) st)) \<and>
         draftText (flushDraft P (feedPartials P txts (updateDraftFromPartial P (Some t) st))) =
           lastPartialText (feedPartials P txts (updateDraftFromPartial P (Some t) st)) \<and>
         updateDraftFromPartial P (Some []) st = st \<and>
         updateDraftFromPartial P None st = st"
proof -
  let ?st' = "updateDraftFromPartial P (Some t) st"
  have restart: "?st' = updateDraftFromPartial P (Some t) (discardBuffered st)"
    using assms by (rule updateDraftFromPartial_restart)
  have last: "lastPartialText ?st' = t"
    using assms(1,3) by (rule updateDraftFromPartial_last)
  have "draftText (discardBuffered st) @ bufferedText (discardBuffered st) =
      lastPartialText (discardBuffered st)"
    by simp
  with assms(2) have "draftText (updateDraftFromPartial P (Some t) (discardBuffered st)) @
      bufferedText (updateDraftFromPartial P (Some t) (discardBuffered st)) =
      lastPartialText (updateDraftFromPartial P (Some t) (discardBuffered st))"
    by (rule updateDraftFromPartial_consistent)
  with restart have now: "draftText ?st' @ bufferedText ?st' = lastPartialText ?st'"
    by simp
  with assms(2) have later: "draftText (feedPartials P txts ?st') @
      bufferedText (feedPartials P txts ?st') = lastPartialText (feedPartials P txts ?st')"
    by (rule feedPartials_consistent)
  have "draftStream (feedPartials P txts ?st') \<noteq> None"
    using assms(1) by (simp del: not_None_eq)
  then have "draftText (flushDraft P (feedPartials P txts ?st')) =
      draftText (feedPartials P txts ?st') @ bufferedText (feedPartials P txts ?st')"
    by (rule flushDraft_fields(1))
  with restart last now later show ?thesis
    by (simp add: updateDraftFromPartial_empty updateDraftFromPartial_missing)
qed

theorem non_extending_partial_witness:
  "draftStream afterHelloWor \<noteq> None \<and>
   streamMode privateBlockParams \<noteq> ''partial'' \<and>
   ''Hi again'' \<noteq> [] \<and>
   \<not> prefix (lastPartialText afterHelloWor) ''Hi again'' \<and>
   lastPartialText (updateDraftFromPartial privateBlockParams (Some ''Hi again'') afterHelloWor) =
     ''Hi again'' \<and>
   draftText (flushDraft privateBlockParams
     (feedPartials privateBlockParams [Some ''Hi again, friend'']
        (updateDraftFromPartial privateBlockParams (Some ''Hi again'') afterHelloWor))) =
     ''Hi again, friend''"
proof -
  have mode: "streamMode privateBlockParams \<noteq> ''partial''"
    by (simp add: privateBlockParams_def)
  have branch: "\<not> prefix (lastPartialText afterHelloWor) ''Hi again''"
    by (simp add: afterHelloWor_state(2))
  have nonempty: "''Hi again'' \<noteq> []"
    by simp
  note restart = non_extending_partial_restarts [OF afterHelloWor_state(1) mode nonempty branch,
      of "[Some ''Hi again, friend'']"]
  have last: "lastPartialText
      (updateDraftFromPartial privateBlockParams (Some ''Hi again'') afterHelloWor) = ''Hi again''"
    using restart by blast
  have "lastPartialText (feedPartials privateBlockParams [Some ''Hi again, friend'']
      (updateDraftFromPartial privateBlockParams (Some ''Hi again'') afterHelloWor)) =
      ''Hi again, friend''"
    using afterHelloWor_state(1)
    by (simp add: feedPartials_def updateDraftFromPartial_last del: not_None_eq)
  moreover have "draftText (flushDraft privateBlockParams
      (feedPartials privateBlockParams [Some ''Hi again, friend'']
        (updateDraftFromPartial privateBlockParams (Some ''Hi again'') afterHelloWor))) =
      lastPartialText (feedPartials privateBlockParams [Some ''Hi again, friend'']
        (updateDraftFromPartial privateBlockParams (Some ''Hi again'') afterHelloWor))"
    using restart by blast
  ultimately show ?thesis
    using last afterHelloWor_state(1) mode branch by (simp del: not_None_eq)
qed

text \<open>The claim as the spec states it fails for an empty new text: it does not extend
  \<^verbatim>\<open>"Hello wor"\<close>, yet the event is ignored (line 71): the buffer and the last partial
  text are kept.\<close>

theorem empty_partial_text_keeps_buffer:
  "draftStream afterHelloWor \<noteq> None \<and>
   streamMode privateBlockParams \<noteq> ''partial'' \<and>
   lastPartialText afterHelloWor = ''Hello wor'' \<and>
   bufferedText afterHelloWor = ''Hello wor'' \<and>
   \<not> prefix (lastPartialText afterHelloWor) [] \<and>
   updateDraftFromPartial privateBlockParams (Some []) afterHelloWor = afterHelloWor \<and>
   bufferedText (updateDraftFromPartial privateBlockParams (Some []) afterHelloWor) =
     ''Hello wor'' \<and>
   lastPartialText (updateDraftFromPartial privateBlockParams (Some []) afterHelloWor) =
     ''Hello wor''"
  using afterHelloWor_state(1)
  by (simp add: updateDraftFromPartial_empty afterHelloWor_state(2,4) privateBlockParams_def
      del: not_None_eq)

section \<open>No loss, no duplication\<close>

lemma initialState_consistent:
  "draftText (initialState P) @ bufferedText (initialState P) = lastPartialText (initialState P)"
  by (simp add: initialState_def bufferedText_def initialDraftChunker_def
      EmbeddedBlockChunker_def split: option.splits)

lemma initialState_stream: "(draftStream (initialState P) \<noteq> None) = canStreamDraft P"
  by (simp add: initialState_def initialDraftStream_def)

text \<open>
  Claim C1. For every sequence of deltas appended to the Chunk Splitter during one turn
  (each followed by a non-forced drain), the chunks of the non-forced drains followed by
  what the final forced drain emits concatenate to the concatenation of the deltas, and
  the forced drain leaves nothing buffered: no character is lost or duplicated. In the
  turn, where the emitted chunks make up the draft text: in incremental mode, after any
  sequence of partial texts, the draft text that \<^verbatim>\<open>flushDraft\<close> leaves is exactly the
  last partial text.
\<close>

theorem chunker_no_loss_no_duplication:
  "concat (fst (appendAndDrain (EmbeddedBlockChunker pol) deltas)) @
   concat (fst (chunker_drain True (snd (appendAndDrain (EmbeddedBlockChunker pol) deltas))))
     = concat deltas \<and>
   buffer (snd (chunker_drain True (snd (appendAndDrain (EmbeddedBlockChunker pol) deltas)))) = [] \<and>
   (canStreamDraft P \<and> streamMode P \<noteq> ''partial'' \<longrightarrow>
      draftText (flushDraft P (feedPartials P txts (initialState P))) =
        lastPartialText (feedPartials P txts (initialState P)))"
proof -
  let ?c = "snd (appendAndDrain (EmbeddedBlockChunker pol) deltas)"
  have "concat (fst (chunker_drain True ?c)) = buffer ?c"
    by (rule forced_drain_all)
  moreover have "concat (fst (appendAndDrain (EmbeddedBlockChunker pol) deltas)) @ buffer ?c
      = concat deltas"
    using appendAndDrain_concat [of "EmbeddedBlockChunker pol" deltas]
    by (simp add: EmbeddedBlockChunker_def)
  moreover have "draftText (flushDraft P (feedPartials P txts (initialState P))) =
      lastPartialText (feedPartials P txts (initialState P))"
    if stream: "canStreamDraft P" and mode: "streamMode P \<noteq> ''partial''"
  proof -
    let ?st = "feedPartials P txts (initialState P)"
    have "draftStream ?st \<noteq> None"
      using stream initialState_stream [of P] by (simp del: not_None_eq)
    then have "draftText (flushDraft P ?st) = draftText ?st @ bufferedText ?st"
      by (rule flushDraft_fields(1))
    also have "\<dots> = lastPartialText ?st"
      using mode initialState_consistent by (rule feedPartials_consistent)
    finally show ?thesis .
  qed
  ultimately show ?thesis
    by (simp add: chunker_drain_forced_buffer)
qed

theorem chunker_no_loss_witness:
  "canStreamDraft privateBlockParams \<and> streamMode privateBlockParams \<noteq> ''partial'' \<and>
   concat (fst (appendAndDrain (EmbeddedBlockChunker neverSafe) [''Hello '', ''world''])) @
   concat (fst (chunker_drain True
     (snd (appendAndDrain (EmbeddedBlockChunker neverSafe) [''Hello '', ''world''])))) =
     ''Hello world'' \<and>
   draftText (flushDraft privateBlockParams
     (feedPartials privateBlockParams [Some ''Hello '', Some ''Hello world'']
        (initialState privateBlockParams))) = ''Hello world''"
proof -
  have stream: "canStreamDraft privateBlockParams"
    by (simp add: canStreamDraft_def isPrivateChat_def privateBlockParams_def)
  have mode: "streamMode privateBlockParams \<noteq> ''partial''"
    by (simp add: privateBlockParams_def)
  note kept = chunker_no_loss_no_duplication [of neverSafe "[''Hello '', ''world'']"
      privateBlockParams "[Some ''Hello '', Some ''Hello world'']"]
  have "lastPartialText (feedPartials privateBlockParams [Some ''Hello '', Some ''Hello world'']
      (initialState privateBlockParams)) = ''Hello world''"
    using stream initialState_stream [of privateBlockParams]
    by (simp add: feedPartials_def updateDraftFromPartial_last del: not_None_eq)
  with kept stream mode show ?thesis
    by simp
qed

end
